theory Spec2Isabelle
  imports Complex_Main "HOL-Library.Word"
begin

section \<open>JavaScript numbers\<close>

text \<open>
  The editor computes with JavaScript numbers. A finite number is modelled by the real it
  denotes (rounding, overflow and the sign of zero are left out); the three values that
  are not finite are kept, because the gesture code divides by numbers that can be zero:
  \<open>0 / 0\<close> is \<open>NaN\<close>, \<open>x / 0\<close> is an infinity, and \<open>NaN\<close> survives every later
  operation, including \<open>Math.min\<close> and \<open>Math.max\<close>.
\<close>

datatype jsnum = Num real | PInf | NInf | NaN

instantiation jsnum :: "{uminus, plus, minus, times, inverse, abs, ord}"
begin

fun uminus_jsnum :: "jsnum \<Rightarrow> jsnum" where
  "uminus_jsnum (Num a) = Num (- a)"
| "uminus_jsnum PInf = NInf"
| "uminus_jsnum NInf = PInf"
| "uminus_jsnum NaN = NaN"

fun plus_jsnum :: "jsnum \<Rightarrow> jsnum \<Rightarrow> jsnum" where
  "plus_jsnum (Num a) (Num b) = Num (a + b)"
| "plus_jsnum NaN _ = NaN"
| "plus_jsnum _ NaN = NaN"
| "plus_jsnum PInf NInf = NaN"
| "plus_jsnum NInf PInf = NaN"
| "plus_jsnum PInf _ = PInf"
| "plus_jsnum _ PInf = PInf"
| "plus_jsnum NInf _ = NInf"
| "plus_jsnum _ NInf = NInf"

definition minus_jsnum :: "jsnum \<Rightarrow> jsnum \<Rightarrow> jsnum" where
  "minus_jsnum a b = a + (- b)"

text \<open>The sign of a product or quotient with an infinite operand.\<close>

fun signed_inf :: "bool \<Rightarrow> jsnum" where
  "signed_inf positive = (if positive then PInf else NInf)"

fun times_jsnum :: "jsnum \<Rightarrow> jsnum \<Rightarrow> jsnum" where
  "times_jsnum (Num a) (Num b) = Num (a * b)"
| "times_jsnum NaN _ = NaN"
| "times_jsnum _ NaN = NaN"
| "times_jsnum (Num a) PInf = (if a = 0 then NaN else signed_inf (0 < a))"
| "times_jsnum (Num a) NInf = (if a = 0 then NaN else signed_inf (a < 0))"
| "times_jsnum PInf (Num b) = (if b = 0 then NaN else signed_inf (0 < b))"
| "times_jsnum NInf (Num b) = (if b = 0 then NaN else signed_inf (b < 0))"
| "times_jsnum PInf PInf = PInf"
| "times_jsnum NInf NInf = PInf"
| "times_jsnum PInf NInf = NInf"
| "times_jsnum NInf PInf = NInf"

fun divide_jsnum :: "jsnum \<Rightarrow> jsnum \<Rightarrow> jsnum" where
  "divide_jsnum (Num a) (Num b) =
     (if b = 0 then (if a = 0 then NaN else signed_inf (0 < a)) else Num (a / b))"
| "divide_jsnum NaN _ = NaN"
| "divide_jsnum _ NaN = NaN"
| "divide_jsnum (Num a) PInf = Num 0"
| "divide_jsnum (Num a) NInf = Num 0"
| "divide_jsnum PInf (Num b) = signed_inf (0 \<le> b)"
| "divide_jsnum NInf (Num b) = signed_inf (b < 0)"
| "divide_jsnum PInf PInf = NaN"
| "divide_jsnum PInf NInf = NaN"
| "divide_jsnum NInf PInf = NaN"
| "divide_jsnum NInf NInf = NaN"

definition inverse_jsnum :: "jsnum \<Rightarrow> jsnum" where
  "inverse_jsnum a = divide (Num 1) a"

fun abs_jsnum :: "jsnum \<Rightarrow> jsnum" where
  "abs_jsnum (Num a) = Num \<bar>a\<bar>"
| "abs_jsnum PInf = PInf"
| "abs_jsnum NInf = PInf"
| "abs_jsnum NaN = NaN"

text \<open>Every comparison with \<open>NaN\<close> is false.\<close>

fun less_jsnum :: "jsnum \<Rightarrow> jsnum \<Rightarrow> bool" where
  "less_jsnum (Num a) (Num b) = (a < b)"
| "less_jsnum NaN _ = False"
| "less_jsnum _ NaN = False"
| "less_jsnum _ NInf = False"
| "less_jsnum PInf _ = False"
| "less_jsnum NInf _ = True"
| "less_jsnum _ PInf = True"

fun less_eq_jsnum :: "jsnum \<Rightarrow> jsnum \<Rightarrow> bool" where
  "less_eq_jsnum (Num a) (Num b) = (a \<le> b)"
| "less_eq_jsnum NaN _ = False"
| "less_eq_jsnum _ NaN = False"
| "less_eq_jsnum NInf _ = True"
| "less_eq_jsnum _ PInf = True"
| "less_eq_jsnum _ NInf = False"
| "less_eq_jsnum PInf _ = False"

instance ..

end

text \<open>\<open>Math.min\<close> and \<open>Math.max\<close> of two arguments: \<open>NaN\<close> if either argument is.\<close>

fun Math_min :: "jsnum \<Rightarrow> jsnum \<Rightarrow> jsnum" where
  "Math_min NaN _ = NaN"
| "Math_min _ NaN = NaN"
| "Math_min a b = (if b < a then b else a)"

fun Math_max :: "jsnum \<Rightarrow> jsnum \<Rightarrow> jsnum" where
  "Math_max NaN _ = NaN"
| "Math_max _ NaN = NaN"
| "Math_max a b = (if a < b then b else a)"

text \<open>\<open>Math.hypot\<close> on two finite arguments.\<close>

definition Math_hypot :: "real \<Rightarrow> real \<Rightarrow> real" where
  "Math_hypot dx dy = sqrt (dx\<^sup>2 + dy\<^sup>2)"

text \<open>\<open>Math.round\<close>: the nearest integer, a half rounded up.\<close>

fun Math_round :: "jsnum \<Rightarrow> jsnum" where
  "Math_round (Num a) = Num (of_int (round a))"
| "Math_round a = a"

text \<open>\<open>v || 0\<close> on a finite number: zero is falsy, every other finite number is itself.\<close>

definition or_zero :: "real \<Rightarrow> real" where
  "or_zero v = (if v = 0 then 0 else v)"

section \<open>The gesture transform engine\<close>

text \<open>
  \<open>EditorScreen.tsx\<close> keeps the engine's state in React refs. The model collects them in
  one record and passes it through every handler. \<open>transformRef\<close> is the transform
  written to the image node, \<open>targetRef\<close> the transform it is eased towards.
\<close>

record TransformState =
  tx :: jsnum
  ty :: jsnum
  scale :: jsnum

record Velocity =
  vx :: real
  vy :: real

text \<open>The fields of a pointer event that the engine reads.\<close>

record P =
  pointerId :: int
  clientX :: real
  clientY :: real

record LastPointer =
  lastT :: real
  lastX :: real
  lastY :: real

record DOMRect =
  rect_left :: real
  rect_top :: real
  rect_width :: real
  rect_height :: real

text \<open>
  What a handler reads from the page: \<open>containerRect\<close> is
  \<open>containerRef.current?.getBoundingClientRect()\<close> and \<open>imgRect\<close> is
  \<open>imgRef.current.getBoundingClientRect()\<close>, each \<open>None\<close> when the node is not mounted.
\<close>

record Page =
  containerRect :: "DOMRect option"
  imgRect :: "DOMRect option"
  innerWidth :: real

text \<open>
  \<open>pointers\<close> is the JavaScript \<open>Map\<close> in insertion order; \<open>lastPinchDistance\<close> is
  the ad hoc property \<open>_lastPinchDistance\<close> on \<open>targetRef\<close> (\<open>None\<close> for
  \<open>undefined\<close> and \<open>null\<close>); \<open>framePending\<close> says that \<open>requestAnimationFrame(loop)\<close>
  has been called and the callback has not run yet.
\<close>

record Gesture =
  transformRef :: TransformState
  targetRef :: TransformState
  lastPinchDistance :: "real option"
  velocityRef :: Velocity
  pointers :: "(int \<times> P) list"
  lastPointerRef :: "LastPointer option"
  isAnimatingRef :: bool
  framePending :: bool

definition identityTransform :: TransformState where
  "identityTransform = \<lparr>tx = Num 0, ty = Num 0, scale = Num 1\<rparr>"

definition zeroVelocity :: Velocity where
  "zeroVelocity = \<lparr>vx = 0, vy = 0\<rparr>"

definition initialGesture :: Gesture where
  "initialGesture =
     \<lparr>transformRef = identityTransform, targetRef = identityTransform,
      lastPinchDistance = None, velocityRef = zeroVelocity, pointers = [],
      lastPointerRef = None, isAnimatingRef = False, framePending = False\<rparr>"

text \<open>\<open>Map.prototype.set\<close>, \<open>has\<close> and \<open>delete\<close> on the insertion-ordered table.\<close>

fun map_set :: "int \<Rightarrow> P \<Rightarrow> (int \<times> P) list \<Rightarrow> (int \<times> P) list" where
  "map_set k v [] = [(k, v)]"
| "map_set k v ((k', v') # kvs) =
     (if k' = k then (k, v) # kvs else (k', v') # map_set k v kvs)"

definition map_has :: "int \<Rightarrow> (int \<times> P) list \<Rightarrow> bool" where
  "map_has k kvs = (k \<in> set (map fst kvs))"

definition map_delete :: "int \<Rightarrow> (int \<times> P) list \<Rightarrow> (int \<times> P) list" where
  "map_delete k kvs = filter (\<lambda>kv. fst kv \<noteq> k) kvs"

definition clamp :: "jsnum \<Rightarrow> jsnum \<Rightarrow> jsnum \<Rightarrow> jsnum" where
  "clamp v a b = Math_max a (Math_min b v)"

subsection \<open>The animation loop\<close>

text \<open>
  \<open>loop\<close> is the callback passed to \<open>requestAnimationFrame\<close>: one call is one frame.
  It eases the displayed transform towards the target, applies the fling velocity, and
  either asks for another frame or snaps to the target and stops.
\<close>

definition closeEnough :: "TransformState \<Rightarrow> TransformState \<Rightarrow> Velocity \<Rightarrow> bool" where
  "closeEnough tgt cur v =
     (\<bar>tx tgt - tx cur\<bar> < Num 0.3 \<and> \<bar>ty tgt - ty cur\<bar> < Num 0.3 \<and>
      \<bar>scale tgt - scale cur\<bar> < Num 0.001 \<and> \<bar>vx v\<bar> < 0.05 \<and> \<bar>vy v\<bar> < 0.05)"

definition flinging :: "Velocity \<Rightarrow> bool" where
  "flinging v = (\<bar>vx v\<bar> > 0.02 \<or> \<bar>vy v\<bar> > 0.02)"

definition loop :: "Gesture \<Rightarrow> Gesture" where
  "loop g =
     (let cur = transformRef g;
          tgt = targetRef g;
          ease = Num 0.15;
          cur = cur\<lparr>tx := tx cur + (tx tgt - tx cur) * ease\<rparr>;
          cur = cur\<lparr>ty := ty cur + (ty tgt - ty cur) * ease\<rparr>;
          cur = cur\<lparr>scale := scale cur + (scale tgt - scale cur) * ease\<rparr>;
          v = velocityRef g;
          cur = (if flinging v
                 then cur\<lparr>tx := tx cur + Num (vx v), ty := ty cur + Num (vy v)\<rparr>
                 else cur);
          v = (if flinging v then \<lparr>vx = vx v * 0.92, vy = vy v * 0.92\<rparr> else v)
      in if \<not> closeEnough tgt cur v
         then g\<lparr>transformRef := cur, velocityRef := v, framePending := True\<rparr>
         else g\<lparr>transformRef := tgt, velocityRef := zeroVelocity,
                isAnimatingRef := False, framePending := False\<rparr>)"

definition startLoop :: "Gesture \<Rightarrow> Gesture" where
  "startLoop g =
     (if isAnimatingRef g then g
      else g\<lparr>isAnimatingRef := True, framePending := True\<rparr>)"

text \<open>
  \<open>frames n g\<close> runs at most \<open>n\<close> animation frames with no input in between: the
  callback runs only while a frame has been requested.
\<close>

fun frames :: "nat \<Rightarrow> Gesture \<Rightarrow> Gesture" where
  "frames 0 g = g"
| "frames (Suc n) g = (if framePending g then frames n (loop g) else g)"

text \<open>
  The loop has come to rest: no frame requested, the image shown at the target, no
  velocity left.
\<close>

definition stopped :: "Gesture \<Rightarrow> bool" where
  "stopped g =
     (\<not> framePending g \<and> \<not> isAnimatingRef g \<and> velocityRef g = zeroVelocity \<and>
      transformRef g = targetRef g)"

fun isNum :: "jsnum \<Rightarrow> bool" where
  "isNum (Num a) = True"
| "isNum _ = False"

definition finiteT :: "TransformState \<Rightarrow> bool" where
  "finiteT T = (isNum (tx T) \<and> isNum (ty T) \<and> isNum (scale T))"

subsection \<open>Pointer handlers\<close>

definition getDistanceBetween :: "P \<Rightarrow> P \<Rightarrow> real" where
  "getDistanceBetween a b = Math_hypot (clientX a - clientX b) (clientY a - clientY b)"

definition getMidpoint :: "P \<Rightarrow> P \<Rightarrow> real \<times> real" where
  "getMidpoint a b = ((clientX a + clientX b) / 2, (clientY a + clientY b) / 2)"

text \<open>\<open>now\<close> is the value of \<open>performance.now()\<close>.\<close>

definition onPointerDown :: "Gesture \<Rightarrow> P \<Rightarrow> real \<Rightarrow> Gesture" where
  "onPointerDown g e now =
     startLoop
       (g\<lparr>pointers := map_set (pointerId e) e (pointers g),
          velocityRef := zeroVelocity,
          lastPointerRef := Some \<lparr>lastT = now, lastX = clientX e, lastY = clientY e\<rparr>\<rparr>)"

text \<open>
  The single-pointer branch of \<open>onPointerMove\<close>. \<open>performance.now()\<close> is read twice,
  as \<open>now\<close> and \<open>now'\<close>. The record of the last pointer is overwritten with the current
  sample before the target is moved, so the two differences added to the target are taken
  between the current sample and itself.
\<close>

definition pan :: "Gesture \<Rightarrow> P \<Rightarrow> Page \<Rightarrow> real \<Rightarrow> real \<Rightarrow> Gesture" where
  "pan g p page now now' =
     (let v = (case lastPointerRef g of
                 None \<Rightarrow> velocityRef g
               | Some l \<Rightarrow>
                   (let dt = max 1 (now - lastT l);
                        dx = clientX p - lastX l;
                        dy = clientY p - lastY l
                    in \<lparr>vx = dx / (dt / (1000 / 60)), vy = dy / (dt / (1000 / 60))\<rparr>));
          l' = \<lparr>lastT = now', lastX = clientX p, lastY = clientY p\<rparr>;
          tgt = targetRef g;
          tgt = tgt\<lparr>tx := tx tgt + Num ((clientX p - innerWidth page / 2) * 0)\<rparr>;
          tgt = tgt\<lparr>tx := tx tgt + Num (or_zero (clientX p - lastX l'))\<rparr>;
          tgt = tgt\<lparr>ty := ty tgt + Num (or_zero (clientY p - lastY l'))\<rparr>;
          tgt = tgt\<lparr>scale := clamp (scale tgt) (Num 0.3) (Num 4)\<rparr>
      in startLoop (g\<lparr>velocityRef := v, lastPointerRef := Some l', targetRef := tgt\<rparr>))"

text \<open>
  The branch for two or more pointers; \<open>a\<close> and \<open>b\<close> are the first two values of the
  table. The offset of the midpoint is measured from the centre of the image's bounding
  rectangle as the page reports it.
\<close>

definition pinch :: "Gesture \<Rightarrow> P \<Rightarrow> P \<Rightarrow> Page \<Rightarrow> Gesture" where
  "pinch g a b page =
     (let dist = getDistanceBetween a b;
          mid = getMidpoint a b;
          lpd = (case lastPinchDistance g of
                   None \<Rightarrow> dist
                 | Some d \<Rightarrow> if d = 0 then dist else d);
          prevDist = lpd;
          lpd = (if prevDist = 0 then dist else lpd);
          scaleFactor = Num dist / Num prevDist;
          tgt = targetRef g;
          prevScale = scale tgt;
          newScale = clamp (prevScale * scaleFactor) (Num 0.3) (Num 4);
          tgt = (case (containerRect page, imgRect page) of
                   (Some rect, Some r) \<Rightarrow>
                     (let cx = fst mid - (rect_left r + rect_width r / 2);
                          cy = snd mid - (rect_top r + rect_height r / 2)
                      in tgt\<lparr>tx := tx tgt - (newScale / prevScale - Num 1) * Num cx,
                              ty := ty tgt - (newScale / prevScale - Num 1) * Num cy\<rparr>)
                 | _ \<Rightarrow> tgt);
          tgt = tgt\<lparr>scale := newScale\<rparr>
      in startLoop (g\<lparr>targetRef := tgt, lastPinchDistance := Some dist\<rparr>))"

definition onPointerMove :: "Gesture \<Rightarrow> P \<Rightarrow> Page \<Rightarrow> real \<Rightarrow> real \<Rightarrow> Gesture" where
  "onPointerMove g e page now now' =
     (if \<not> map_has (pointerId e) (pointers g) then g
      else
        (let g = g\<lparr>pointers := map_set (pointerId e) e (pointers g)\<rparr>;
             pts = map snd (pointers g)
         in case pts of
              [p] \<Rightarrow> pan g p page now now'
            | a # b # _ \<Rightarrow> pinch g a b page
            | [] \<Rightarrow> g))"

definition onPointerUp :: "Gesture \<Rightarrow> P \<Rightarrow> Gesture" where
  "onPointerUp g e =
     startLoop
       (g\<lparr>pointers := map_delete (pointerId e) (pointers g),
          lastPinchDistance := None,
          lastPointerRef := None\<rparr>)"

subsection \<open>What the page shows\<close>

text \<open>
  The image node carries the style \<open>translate(tx, ty) scale(s)\<close> written by
  \<open>applyTransformToNode\<close> from \<open>transformRef\<close>, with the default transform origin, the
  centre of its layout box. \<open>renderedRect box x y s\<close> is the bounding rectangle that the
  page then reports for a node whose layout box is \<open>box\<close>.
\<close>

definition renderedRect :: "DOMRect \<Rightarrow> real \<Rightarrow> real \<Rightarrow> real \<Rightarrow> DOMRect" where
  "renderedRect box x y s =
     \<lparr>rect_left = rect_left box + rect_width box / 2 + x - \<bar>s\<bar> * rect_width box / 2,
      rect_top = rect_top box + rect_height box / 2 + y - \<bar>s\<bar> * rect_height box / 2,
      rect_width = \<bar>s\<bar> * rect_width box,
      rect_height = \<bar>s\<bar> * rect_height box\<rparr>"

text \<open>
  Under a transform \<open>T\<close> the image point at offset \<open>u\<close> from the image centre (in
  unscaled pixels) is shown at \<open>screenPoint box T u\<close>; conversely the image point shown at
  the screen position \<open>m\<close> is \<open>imagePointAt box T m\<close>.
\<close>

definition screenPoint :: "DOMRect \<Rightarrow> TransformState \<Rightarrow> jsnum \<times> jsnum \<Rightarrow> jsnum \<times> jsnum" where
  "screenPoint box T u =
     (Num (rect_left box + rect_width box / 2) + tx T + scale T * fst u,
      Num (rect_top box + rect_height box / 2) + ty T + scale T * snd u)"

definition imagePointAt :: "DOMRect \<Rightarrow> TransformState \<Rightarrow> real \<times> real \<Rightarrow> jsnum \<times> jsnum" where
  "imagePointAt box T m =
     ((Num (fst m) - (Num (rect_left box + rect_width box / 2) + tx T)) / scale T,
      (Num (snd m) - (Num (rect_top box + rect_height box / 2) + ty T)) / scale T)"

text \<open>The scale bounds of the engine.\<close>

definition inRange :: "jsnum \<Rightarrow> bool" where
  "inRange s = (Num 0.3 \<le> s \<and> s \<le> Num 4)"

section \<open>The edit pipeline\<close>

text \<open>
  The React state of \<open>EditorScreen\<close> that the edit operations read and write. A raster is
  the data URL that holds it. \<open>alerts\<close> collects the messages shown with \<open>alert\<close>, the
  oldest first.
\<close>

datatype Tool = Crop | Ratio | Flip | Compress | Enhance | Import | RemoveBg

record Overlay =
  ov_src :: string
  ov_x :: real
  ov_y :: real
  ov_width :: real
  ov_height :: real
  ov_opacity :: real

record Editor =
  currentImageUri :: string
  undoStack :: "string list"
  isProcessing :: bool
  processingMessage :: string
  activeTool :: "Tool option"
  overlay :: "Overlay option"
  alerts :: "string list"

subsection \<open>Undo\<close>

text \<open>\<open>pushUndo\<close> is \<open>setUndoStack((s) => [uri, ...s.slice(0, 9)])\<close>.\<close>

definition pushUndo :: "string \<Rightarrow> Editor \<Rightarrow> Editor" where
  "pushUndo uri e = e\<lparr>undoStack := uri # take 9 (undoStack e)\<rparr>"

definition setCurrentImageUri :: "string \<Rightarrow> Editor \<Rightarrow> Editor" where
  "setCurrentImageUri uri e = e\<lparr>currentImageUri := uri\<rparr>"

text \<open>
  Every operation that succeeds ends with \<open>pushUndo(currentImageUri)\<close> followed by
  \<open>setCurrentImageUri(newUri)\<close>; \<open>applyEdits\<close> does so for a list of results in turn.
\<close>

definition commit :: "string \<Rightarrow> Editor \<Rightarrow> Editor" where
  "commit newUri e = setCurrentImageUri newUri (pushUndo (currentImageUri e) e)"

definition applyEdits :: "Editor \<Rightarrow> string list \<Rightarrow> Editor" where
  "applyEdits e us = foldl (\<lambda>e u. commit u e) e us"

text \<open>
  \<open>handleUndo\<close> destructures the stack into \<open>latest\<close> and \<open>rest\<close> and tests
  \<open>if (latest)\<close>: \<open>undefined\<close> (the empty stack) and the empty string are falsy.
\<close>

definition handleUndo :: "Editor \<Rightarrow> Editor" where
  "handleUndo e =
     (case undoStack e of
        [] \<Rightarrow> e
      | latest # rest \<Rightarrow>
          if latest \<noteq> [] then e\<lparr>currentImageUri := latest, undoStack := rest\<rparr> else e)"

subsection \<open>Operations that can fail\<close>

text \<open>How a promise that a handler awaits comes out.\<close>

datatype 'a outcome = Resolved 'a | Rejected | Pending

text \<open>
  What happens to an \<open>Image\<close> whose \<open>src\<close> has been set: the \<open>load\<close> event fires, or
  the \<open>error\<close> event does.
\<close>

datatype loading = Loaded | LoadError

text \<open>
  A handler either runs to its end or stays suspended at an \<open>await\<close> that never settles;
  either way the editor state it has produced is given.
\<close>

datatype run = Finished Editor | Suspended Editor

text \<open>\<open>alert(msg)\<close>, and the two ends of the busy state.\<close>

definition report :: "string \<Rightarrow> Editor \<Rightarrow> Editor" where
  "report msg e = e\<lparr>alerts := alerts e @ [msg]\<rparr>"

definition startProcessing :: "string \<Rightarrow> Editor \<Rightarrow> Editor" where
  "startProcessing msg e = e\<lparr>isProcessing := True, processingMessage := msg\<rparr>"

definition endProcessing :: "Editor \<Rightarrow> Editor" where
  "endProcessing e = e\<lparr>isProcessing := False, processingMessage := ''Processing...''\<rparr>"

text \<open>
  \<open>removeBackground\<close> is how the promise returned by the external
  \<open>removeBackground(currentImageUri)\<close> comes out.
\<close>

definition handleBackgroundRemove :: "Editor \<Rightarrow> string outcome \<Rightarrow> run" where
  "handleBackgroundRemove e removeBackground =
     (let e = startProcessing ''Removing background...'' e
      in case removeBackground of
           Resolved result \<Rightarrow> Finished (endProcessing (commit result e))
         | Rejected \<Rightarrow> Finished (endProcessing (report ''Background removal failed.'' e))
         | Pending \<Rightarrow> Suspended e)"

text \<open>
  What \<open>handleApplyOverlay\<close> meets on its way: whether the base image and the overlay
  load (each is awaited through \<open>onload\<close> alone), whether \<open>getContext("2d")\<close> gives a
  context and \<open>containerRef.current\<close> a node (a \<open>null\<close> makes the next call throw), and
  the data URL that \<open>canvas.toDataURL("image/png")\<close> returns (\<open>None\<close> when it throws).
  The pixels of the composite are not modelled.
\<close>

record OverlayRun =
  mainImage :: loading
  overlayImage :: loading
  context2d :: bool
  containerMounted :: bool
  dataURL :: "string option"

definition handleApplyOverlay :: "Editor \<Rightarrow> OverlayRun \<Rightarrow> run" where
  "handleApplyOverlay e r =
     (case overlay e of
        None \<Rightarrow> Finished e
      | Some ov \<Rightarrow>
          (let e = startProcessing ''Applying overlay...'' e;
               failed = Finished (endProcessing (report ''Apply overlay failed'' e))
           in if mainImage r \<noteq> Loaded then Suspended e
              else if overlayImage r \<noteq> Loaded then Suspended e
              else if \<not> context2d r then failed
              else if \<not> containerMounted r then failed
              else case dataURL r of
                     None \<Rightarrow> failed
                   | Some newUri \<Rightarrow>
                       Finished (endProcessing
                         ((commit newUri e)\<lparr>overlay := None, activeTool := None\<rparr>))))"

fun state_of :: "run \<Rightarrow> Editor" where
  "state_of (Finished e) = e"
| "state_of (Suspended e) = e"

subsection \<open>Crop to an aspect ratio\<close>

text \<open>
  The table of the ratio tool and the body of a button's \<open>onload\<close> callback, up to the
  call of \<open>drawImage(img, sx, sy, srcW, srcH, 0, 0, srcW, srcH)\<close> on a canvas of
  \<open>srcW\<close> by \<open>srcH\<close> pixels and the encoding with \<open>toDataURL("image/png")\<close>.
\<close>

record AspectRatio =
  ratio_name :: string
  ratio_w :: real
  ratio_h :: real

definition ratios :: "AspectRatio list" where
  "ratios =
     [\<lparr>ratio_name = ''1:1'', ratio_w = 1, ratio_h = 1\<rparr>,
      \<lparr>ratio_name = ''4:3'', ratio_w = 4, ratio_h = 3\<rparr>,
      \<lparr>ratio_name = ''16:9'', ratio_w = 16, ratio_h = 9\<rparr>,
      \<lparr>ratio_name = ''3:4'', ratio_w = 3, ratio_h = 4\<rparr>,
      \<lparr>ratio_name = ''9:16'', ratio_w = 9, ratio_h = 16\<rparr>]"

record CropPlan =
  crop_sx :: jsnum
  crop_sy :: jsnum
  crop_srcW :: jsnum
  crop_srcH :: jsnum
  canvas_width :: jsnum
  canvas_height :: jsnum
  crop_mime :: string

definition cropToRatio :: "nat \<Rightarrow> nat \<Rightarrow> AspectRatio \<Rightarrow> CropPlan" where
  "cropToRatio naturalWidth naturalHeight r =
     (let targetRatio = Num (ratio_w r) / Num (ratio_h r);
          srcW = Num (real naturalWidth);
          srcH = Num (real naturalHeight);
          sx = Num 0;
          sy = Num 0;
          imgRatio = srcW / srcH;
          (sx, sy, srcW, srcH) =
            (if imgRatio > targetRatio
             then (let srcW = Math_round (srcH * targetRatio);
                       sx = Math_round ((Num (real naturalWidth) - srcW) / Num 2)
                   in (sx, sy, srcW, srcH))
             else (let srcH = Math_round (srcW / targetRatio);
                       sy = Math_round ((Num (real naturalHeight) - srcH) / Num 2)
                   in (sx, sy, srcW, srcH)))
      in \<lparr>crop_sx = sx, crop_sy = sy, crop_srcW = srcW, crop_srcH = srcH,
          canvas_width = srcW, canvas_height = srcH, crop_mime = ''image/png''\<rparr>)"

subsection \<open>Horizontal flip\<close>

text \<open>
  A decoded image or a PNG is a grid of RGBA pixels with straight (not premultiplied)
  colour bytes, row by row. The canvas context keeps the diagonal and the translation of
  its transform matrix; \<open>translate\<close> and \<open>scale\<close> compose with it as the canvas API
  does. \<open>drawImage(img, 0, 0)\<close> paints source pixel \<open>i\<close> of a row over the interval from
  \<open>i\<close> to \<open>i + 1\<close>, which a mirrored axis with offset \<open>e\<close> sends to the canvas pixel
  \<open>e - 1 - i\<close>; only unit factors are modelled, and a canvas pixel that no source pixel
  covers stays transparent.
\<close>

type_synonym rgba = "8 word \<times> 8 word \<times> 8 word \<times> 8 word"

record Bitmap =
  naturalWidth :: nat
  naturalHeight :: nat
  pixels :: "rgba list list"

definition wellFormed :: "Bitmap \<Rightarrow> bool" where
  "wellFormed img =
     (length (pixels img) = naturalHeight img \<and>
      list_all (\<lambda>row. length row = naturalWidth img) (pixels img))"

text \<open>
  The backing store of a 2D canvas holds colours premultiplied by alpha, in 8 bits per
  channel. Painting a pixel stores each colour byte \<open>c\<close> as \<open>c * a / 255\<close> rounded to the
  nearest integer; \<open>toDataURL\<close> divides it out again, as \<open>c * 255 / a\<close> rounded to the
  nearest integer (halves upwards) and capped at 255, and a pixel with alpha 0 is read
  back as all zero. Alpha itself is stored as it is.
\<close>

definition premultiply :: "8 word \<Rightarrow> 8 word \<Rightarrow> 8 word" where
  "premultiply c a = of_nat ((2 * unat c * unat a + 255) div 510)"

definition unpremultiply :: "8 word \<Rightarrow> 8 word \<Rightarrow> 8 word" where
  "unpremultiply c a =
     (if a = 0 then 0 else of_nat (min 255 ((510 * unat c + unat a) div (2 * unat a))))"

fun toPremultiplied :: "rgba \<Rightarrow> rgba" where
  "toPremultiplied (r, g, b, a) = (premultiply r a, premultiply g a, premultiply b a, a)"

fun fromPremultiplied :: "rgba \<Rightarrow> rgba" where
  "fromPremultiplied (r, g, b, a) = (unpremultiply r a, unpremultiply g a, unpremultiply b a, a)"

definition transparent :: rgba where
  "transparent = (0, 0, 0, 0)"

record Ctx =
  m_a :: int
  m_d :: int
  m_e :: int
  m_f :: int

definition freshContext :: Ctx where
  "freshContext = \<lparr>m_a = 1, m_d = 1, m_e = 0, m_f = 0\<rparr>"

definition ctx_translate :: "int \<Rightarrow> int \<Rightarrow> Ctx \<Rightarrow> Ctx" where
  "ctx_translate x y c = c\<lparr>m_e := m_e c + m_a c * x, m_f := m_f c + m_d c * y\<rparr>"

definition ctx_scale :: "int \<Rightarrow> int \<Rightarrow> Ctx \<Rightarrow> Ctx" where
  "ctx_scale x y c = c\<lparr>m_a := m_a c * x, m_d := m_d c * y\<rparr>"

definition sourceIndex :: "int \<Rightarrow> int \<Rightarrow> nat \<Rightarrow> int" where
  "sourceIndex a e X = (if a = 1 then int X - e else e - 1 - int X)"

text \<open>
  The content of canvas pixel \<open>(X, Y)\<close> after \<open>drawImage(img, 0, 0)\<close> on a fresh
  (transparent) canvas: the source pixel that lands there, premultiplied.
\<close>

definition canvasPixel :: "Ctx \<Rightarrow> Bitmap \<Rightarrow> nat \<Rightarrow> nat \<Rightarrow> rgba" where
  "canvasPixel c img X Y =
     (let i = sourceIndex (m_a c) (m_e c) X;
          j = sourceIndex (m_d c) (m_f c) Y
      in if 0 \<le> i \<and> i < int (naturalWidth img) \<and> 0 \<le> j \<and> j < int (naturalHeight img)
         then toPremultiplied (pixels img ! nat j ! nat i)
         else transparent)"

definition drawImage :: "Ctx \<Rightarrow> Bitmap \<Rightarrow> nat \<Rightarrow> nat \<Rightarrow> Bitmap" where
  "drawImage c img width height =
     \<lparr>naturalWidth = width, naturalHeight = height,
      pixels = map (\<lambda>Y. map (\<lambda>X. canvasPixel c img X Y) [0..<width]) [0..<height]\<rparr>"

text \<open>\<open>canvas.toDataURL("image/png")\<close>: the image that the PNG decodes to.\<close>

definition toDataURL_png :: "Bitmap \<Rightarrow> Bitmap" where
  "toDataURL_png canvas = canvas\<lparr>pixels := map (map fromPremultiplied) (pixels canvas)\<rparr>"

text \<open>
  The Flip H handler, from the decoded current image to the image that becomes current.
\<close>

definition flipHorizontal :: "Bitmap \<Rightarrow> Bitmap" where
  "flipHorizontal img =
     (let width = naturalWidth img;
          height = naturalHeight img;
          ctx = freshContext;
          ctx = ctx_translate (int width) 0 ctx;
          ctx = ctx_scale (- 1) 1 ctx
      in toDataURL_png (drawImage ctx img width height))"

text \<open>
  What one trip through the canvas makes of a pixel, and the pixels that it returns
  unchanged.
\<close>

definition throughCanvas :: "rgba \<Rightarrow> rgba" where
  "throughCanvas p = fromPremultiplied (toPremultiplied p)"

definition canvasExact :: "rgba \<Rightarrow> bool" where
  "canvasExact p = (throughCanvas p = p)"

section \<open>Sample inputs\<close>

subsection \<open>Gestures\<close>

text \<open>
  A 400 by 400 container at the origin with a 200 by 200 image laid out in its middle.
  \<open>pageShowing x y s\<close> is the page while the image node carries the transform
  \<open>translate(x, y) scale(s)\<close>.
\<close>

definition container0 :: DOMRect where
  "container0 = \<lparr>rect_left = 0, rect_top = 0, rect_width = 400, rect_height = 400\<rparr>"

definition box0 :: DOMRect where
  "box0 = \<lparr>rect_left = 100, rect_top = 100, rect_width = 200, rect_height = 200\<rparr>"

definition pageShowing :: "real \<Rightarrow> real \<Rightarrow> real \<Rightarrow> Page" where
  "pageShowing x y s =
     \<lparr>containerRect = Some container0, imgRect = Some (renderedRect box0 x y s),
      innerWidth = 400\<rparr>"

text \<open>A drag: one pointer goes down at the origin and is moved by (10, 5) 16 ms later.\<close>

definition pan_start :: Gesture where
  "pan_start = onPointerDown initialGesture \<lparr>pointerId = 1, clientX = 0, clientY = 0\<rparr> 0"

definition pan_moved :: Gesture where
  "pan_moved =
     onPointerMove pan_start \<lparr>pointerId = 1, clientX = 10, clientY = 5\<rparr> (pageShowing 0 0 1) 16 16"

text \<open>
  A pinch: pointer 1 rests at (100, 100) while pointer 2 goes down at (200, 100) and moves
  right along the same row, to x = 300, 500 and 700. An animation frame runs after every
  event. The first three frames find the image at its target; the one after the second
  move eases it to \<open>translate(-15, 15) scale(1.15)\<close>, and that is where the page shows it
  when the third move arrives.
\<close>

definition pinch_start :: Gesture where
  "pinch_start =
     loop (onPointerDown
       (loop (onPointerDown initialGesture \<lparr>pointerId = 1, clientX = 100, clientY = 100\<rparr> 0))
       \<lparr>pointerId = 2, clientX = 200, clientY = 100\<rparr> 8)"

definition pinch_first :: Gesture where
  "pinch_first =
     loop (onPointerMove pinch_start \<lparr>pointerId = 2, clientX = 300, clientY = 100\<rparr>
       (pageShowing 0 0 1) 16 16)"

definition pinch_second :: Gesture where
  "pinch_second =
     onPointerMove pinch_first \<lparr>pointerId = 2, clientX = 500, clientY = 100\<rparr>
       (pageShowing 0 0 1) 32 32"

definition pinch_frame :: Gesture where
  "pinch_frame = loop pinch_second"

definition pinch_third :: Gesture where
  "pinch_third =
     onPointerMove pinch_frame \<lparr>pointerId = 2, clientX = 700, clientY = 100\<rparr>
       (pageShowing (- 15) 15 1.15) 48 48"

text \<open>
  Two pointers that meet: pointer 1 rests at (100, 100), pointer 2 goes down one pixel to
  its right and moves onto the same position.
\<close>

definition coincident_start :: Gesture where
  "coincident_start =
     onPointerDown
       (onPointerDown initialGesture \<lparr>pointerId = 1, clientX = 100, clientY = 100\<rparr> 0)
       \<lparr>pointerId = 2, clientX = 101, clientY = 100\<rparr> 1"

definition coincident_moved :: Gesture where
  "coincident_moved =
     onPointerMove coincident_start \<lparr>pointerId = 2, clientX = 100, clientY = 100\<rparr>
       (pageShowing 0 0 1) 16 16"

text \<open>
  A slow drag and release: pointer 1 goes down at the origin, the frame that follows finds
  nothing to do, the pointer is moved 6 px to the right one second later (a velocity of 0.1
  px per frame) and released. \<open>fling_frame9\<close> is the state nine frames after the release.
\<close>

definition fling_start :: Gesture where
  "fling_start =
     loop (onPointerDown initialGesture \<lparr>pointerId = 1, clientX = 0, clientY = 0\<rparr> 0)"

definition fling_moved :: Gesture where
  "fling_moved =
     onPointerMove fling_start \<lparr>pointerId = 1, clientX = 6, clientY = 0\<rparr>
       (pageShowing 0 0 1) 1000 1000"

definition fling_released :: Gesture where
  "fling_released = onPointerUp fling_moved \<lparr>pointerId = 1, clientX = 6, clientY = 0\<rparr>"

text \<open>
  After the release only the horizontal offset \<open>x\<close> of the image and the horizontal
  velocity \<open>v\<close> change: \<open>coasting x v\<close> is the state of the slow drag with these two
  values.
\<close>

definition coasting :: "real \<Rightarrow> real \<Rightarrow> Gesture" where
  "coasting x v =
     \<lparr>transformRef = \<lparr>tx = Num x, ty = Num 0, scale = Num 1\<rparr>,
      targetRef = \<lparr>tx = Num 0, ty = Num 0, scale = Num 1\<rparr>,
      lastPinchDistance = None, velocityRef = \<lparr>vx = v, vy = 0\<rparr>,
      pointers = [], lastPointerRef = None, isAnimatingRef = True, framePending = True\<rparr>"

definition fling_frame9 :: Gesture where
  "fling_frame9 = frames 9 fling_released"

subsection \<open>Editor states\<close>

text \<open>A freshly opened editor and twelve results of successful edits.\<close>

definition editor0 :: Editor where
  "editor0 =
     \<lparr>currentImageUri = ''data:0'', undoStack = [], isProcessing = False,
      processingMessage = ''Processing...'', activeTool = None, overlay = None, alerts = []\<rparr>"

definition twelve_edits :: "string list" where
  "twelve_edits =
     [''data:1'', ''data:2'', ''data:3'', ''data:4'', ''data:5'', ''data:6'', ''data:7'',
      ''data:8'', ''data:9'', ''data:10'', ''data:11'', ''data:12'']"

definition three_edits :: "string list" where
  "three_edits = [''data:1'', ''data:2'', ''data:3'']"

text \<open>
  An editor with an imported overlay whose file is not an image the browser can decode:
  the base image loads, the overlay's \<open>error\<close> event fires.
\<close>

definition editor_with_overlay :: Editor where
  "editor_with_overlay =
     \<lparr>currentImageUri = ''data:image/png;base64,AAAA'', undoStack = [''data:0''],
      isProcessing = False, processingMessage = ''Processing...'', activeTool = Some Import,
      overlay = Some \<lparr>ov_src = ''data:text/plain;base64,AAAA'', ov_x = 80, ov_y = 80,
                       ov_width = 200, ov_height = 200, ov_opacity = 1\<rparr>,
      alerts = []\<rparr>"

definition overlay_undecodable :: OverlayRun where
  "overlay_undecodable =
     \<lparr>mainImage = Loaded, overlayImage = LoadError, context2d = True,
      containerMounted = True, dataURL = Some ''data:image/png;base64,BBBB''\<rparr>"

subsection \<open>Images\<close>

text \<open>A 3 by 2 image with translucent pixels, and the same image made opaque.\<close>

definition sample_bitmap :: Bitmap where
  "sample_bitmap =
     \<lparr>naturalWidth = 3, naturalHeight = 2,
      pixels = [[(255, 0, 0, 255), (0, 255, 0, 255), (0, 0, 255, 128)],
                [(1, 2, 3, 4), (5, 6, 7, 8), (9, 10, 11, 12)]]\<rparr>"

definition opaque_bitmap :: Bitmap where
  "opaque_bitmap =
     \<lparr>naturalWidth = 3, naturalHeight = 2,
      pixels = [[(255, 0, 0, 255), (0, 255, 0, 255), (0, 0, 255, 255)],
                [(1, 2, 3, 255), (5, 6, 7, 255), (9, 10, 11, 255)]]\<rparr>"

section \<open>Properties of the gesture engine\<close>

subsection \<open>Numbers\<close>

lemma Math_hypot_same_row: "Math_hypot dx 0 = \<bar>dx\<bar>"
  by (simp add: Math_hypot_def)

lemma plus_Num_zero: "(a::jsnum) + Num 0 = a"
  by (cases a) simp_all

lemma inRange_Num: "inRange v \<longleftrightarrow> (\<exists>n. v = Num n \<and> 0.3 \<le> n \<and> n \<le> 4)"
  by (cases v) (simp_all add: inRange_def)

lemma clamp_inRange: "v \<noteq> NaN \<Longrightarrow> inRange (clamp v (Num 0.3) (Num 4))"
  by (cases v) (simp_all add: clamp_def inRange_def)

lemma clamp_NaN: "clamp NaN a b = NaN"
  by (cases a; cases b) (simp_all add: clamp_def)

lemmas gesture_evals =
  onPointerMove_def onPointerDown_def initialGesture_def startLoop_def map_has_def
  pan_def pinch_def loop_def closeEnough_def flinging_def or_zero_def
  getDistanceBetween_def getMidpoint_def Math_hypot_same_row clamp_def
  identityTransform_def zeroVelocity_def pageShowing_def renderedRect_def box0_def
  container0_def minus_jsnum_def Let_def

subsection \<open>Pan\<close>

lemma pan_keeps_target_translation:
  "tx (targetRef (pan g p page now now')) = tx (targetRef g) \<and>
   ty (targetRef (pan g p page now now')) = ty (targetRef g)"
  by (simp add: pan_def startLoop_def or_zero_def plus_Num_zero Let_def)

lemma pan_velocity:
  assumes "lastPointerRef g = Some l"
  shows "velocityRef (pan g p page now now') =
           \<lparr>vx = (clientX p - lastX l) / (max 1 (now - lastT l) / (1000 / 60)),
            vy = (clientY p - lastY l) / (max 1 (now - lastT l) / (1000 / 60))\<rparr>"
  using assms by (simp add: pan_def startLoop_def Let_def)

text \<open>
  C1. The claim: while exactly one pointer is active, a move adds the pointer's
  displacement since the previous sample to the target translation, and the velocity is
  that displacement per 16.67 ms. On the drag above, a displacement of (10, 5) over 16 ms
  with one tracked pointer, the handler does set the velocity, to (10, 5) / (16 / 16.67),
  but the target translation stays (0, 0) instead of becoming (10, 5): the differences it
  adds are taken after the last sample has been replaced by the current one.
\<close>

theorem pan_does_not_move_target:
  "length (pointers pan_moved) = 1 \<and>
   targetRef pan_start = \<lparr>tx = Num 0, ty = Num 0, scale = Num 1\<rparr> \<and>
   targetRef pan_moved = \<lparr>tx = Num 0, ty = Num 0, scale = Num 1\<rparr> \<and>
   velocityRef pan_moved = \<lparr>vx = 10 / (16 / (1000 / 60)), vy = 5 / (16 / (1000 / 60))\<rparr>"
  by (simp add: pan_moved_def pan_start_def gesture_evals)

subsection \<open>Pinch\<close>

lemma scale_pinch:
  "scale (targetRef (pinch g a b page)) =
     clamp (scale (targetRef g) *
            (Num (getDistanceBetween a b) /
             Num (case lastPinchDistance g of None \<Rightarrow> getDistanceBetween a b
                  | Some d \<Rightarrow> if d = 0 then getDistanceBetween a b else d)))
       (Num 0.3) (Num 4)"
  by (simp add: pinch_def startLoop_def Let_def split: option.splits prod.splits)

lemma pinch_scale_inRange:
  assumes "scale (targetRef g) = Num s"
    and "getDistanceBetween a b \<noteq> 0"
  shows "inRange (scale (targetRef (pinch g a b page)))"
  using assms by (auto simp: scale_pinch intro!: clamp_inRange split: option.splits)

lemma pinch_ratio_100:
  assumes "scale (targetRef g) = Num 1" and "lastPinchDistance g = Some d" and "d \<noteq> 0"
    and "getDistanceBetween a b = 100 * d"
  shows "scale (targetRef (pinch g a b page)) = Num 4"
  using assms by (simp add: scale_pinch clamp_def)

lemma pinch_translation:
  assumes "containerRect page = Some c" and "imgRect page = Some r"
  shows "tx (targetRef (pinch g a b page)) =
           tx (targetRef g) -
           (scale (targetRef (pinch g a b page)) / scale (targetRef g) - Num 1) *
           Num (fst (getMidpoint a b) - (rect_left r + rect_width r / 2))"
    and "ty (targetRef (pinch g a b page)) =
           ty (targetRef g) -
           (scale (targetRef (pinch g a b page)) / scale (targetRef g) - Num 1) *
           Num (snd (getMidpoint a b) - (rect_top r + rect_height r / 2))"
  using assms by (simp_all add: pinch_def startLoop_def Let_def)

text \<open>
  When the page shows the image where the target transform puts it, the adjustment keeps
  the image point under the midpoint in place.
\<close>

lemma pinch_keeps_focal_point_when_settled:
  assumes tgt: "targetRef g = \<lparr>tx = Num x, ty = Num y, scale = Num s\<rparr>"
    and s: "s \<noteq> 0"
    and c: "containerRect page = Some c"
    and r: "imgRect page = Some (renderedRect box x y s')"
    and d: "getDistanceBetween a b \<noteq> 0"
  shows "screenPoint box (targetRef (pinch g a b page))
           (imagePointAt box (targetRef g) (getMidpoint a b)) =
         (Num (fst (getMidpoint a b)), Num (snd (getMidpoint a b)))"
proof -
  obtain n where n: "scale (targetRef (pinch g a b page)) = Num n"
    using pinch_scale_inRange [of g s a b page] tgt d by (auto simp: inRange_Num)
  have cx: "rect_left (renderedRect box x y s') + rect_width (renderedRect box x y s') / 2 =
            rect_left box + rect_width box / 2 + x"
    and cy: "rect_top (renderedRect box x y s') + rect_height (renderedRect box x y s') / 2 =
            rect_top box + rect_height box / 2 + y"
    by (simp_all add: renderedRect_def)
  show ?thesis
    using s
    by (simp add: screenPoint_def imagePointAt_def pinch_translation [OF c r] n tgt cx cy
        minus_jsnum_def field_simps)
qed

text \<open>
  C2. The claim: a pinch update moves the target translation by
  -(newScale / prevScale - 1) times the midpoint's offset from the image centre, so that
  the image point under the midpoint stays under it. The offset is measured on the image as
  the page shows it, which trails the target while the animation runs. In the pinch above
  the third update arrives when the target is (-100, 100, 2) and the image is shown at
  (-15, 15, 1.15); the midpoint is (400, 100) and lies over the image point (150, -100) of
  the target. The update gives the target (-207.5, 157.5, 3), which puts that image point
  at (442.5, 57.5), not at (400, 100).
\<close>

theorem pinch_focal_point_drifts:
  "transformRef pinch_frame = \<lparr>tx = Num (- 15), ty = Num 15, scale = Num 1.15\<rparr> \<and>
   targetRef pinch_frame = \<lparr>tx = Num (- 100), ty = Num 100, scale = Num 2\<rparr> \<and>
   map snd (pointers pinch_third) =
     [\<lparr>pointerId = 1, clientX = 100, clientY = 100\<rparr>,
      \<lparr>pointerId = 2, clientX = 700, clientY = 100\<rparr>] \<and>
   imagePointAt box0 (targetRef pinch_frame) (400, 100) = (Num 150, Num (- 100)) \<and>
   screenPoint box0 (targetRef pinch_frame) (Num 150, Num (- 100)) = (Num 400, Num 100) \<and>
   targetRef pinch_third = \<lparr>tx = Num (- 207.5), ty = Num 157.5, scale = Num 3\<rparr> \<and>
   screenPoint box0 (targetRef pinch_third) (Num 150, Num (- 100)) = (Num 442.5, Num 57.5)"
  by (simp add: pinch_third_def pinch_frame_def pinch_second_def pinch_first_def
      pinch_start_def screenPoint_def imagePointAt_def gesture_evals)

text \<open>
  C3. The claim: after every pinch update the target scale lies in [0.3, 4]. When the two
  tracked pointers are at the same position and no earlier distance is recorded, the
  distance and the previous distance are both 0, the scale factor is 0 / 0, and the clamp
  returns \<open>NaN\<close>: the target scale is then not in [0.3, 4].
\<close>

theorem coincident_pinch_scale_NaN:
  "map snd (pointers coincident_moved) =
     [\<lparr>pointerId = 1, clientX = 100, clientY = 100\<rparr>,
      \<lparr>pointerId = 2, clientX = 100, clientY = 100\<rparr>] \<and>
   scale (targetRef coincident_start) = Num 1 \<and>
   scale (targetRef coincident_moved) = NaN \<and>
   \<not> inRange (scale (targetRef coincident_moved))"
  by (simp add: coincident_moved_def coincident_start_def inRange_def gesture_evals)

subsection \<open>Pointer down\<close>

text \<open>
  C10. Every pointer-down sets the fling velocity to (0, 0) at once, and the velocity is
  still (0, 0) after the animation frame that follows, so that frame moves the image by
  easing alone.
\<close>

theorem pointer_down_cancels_fling:
  "velocityRef (onPointerDown g e now) = zeroVelocity \<and>
   velocityRef (loop (onPointerDown g e now)) = zeroVelocity"
  by (simp add: onPointerDown_def startLoop_def loop_def flinging_def zeroVelocity_def Let_def)

subsection \<open>The animation loop\<close>

lemma isNum_iff: "isNum a \<longleftrightarrow> (\<exists>x. a = Num x)"
  by (cases a) simp_all

lemma finiteT_iff: "finiteT T \<longleftrightarrow> (\<exists>x y s. T = \<lparr>tx = Num x, ty = Num y, scale = Num s\<rparr>)"
  by (cases T) (auto simp: finiteT_def isNum_iff)

lemma Num_minus: "Num a - Num b = Num (a - b)"
  by (simp add: minus_jsnum_def)

lemma ease_gap: "\<bar>g - (c + (g - c) * 0.15)\<bar> = 0.85 * \<bar>g - c\<bar>" for g c :: real
proof -
  have "g - (c + (g - c) * 0.15) = 0.85 * (g - c)"
    by (simp add: field_simps)
  then show ?thesis
    by (simp only: abs_mult) simp
qed

text \<open>One frame on finite numbers, with and without a fling velocity to apply.\<close>

lemma loop_flinging:
  assumes cur: "transformRef g = \<lparr>tx = Num cx, ty = Num cy, scale = Num cs\<rparr>"
    and tgt: "targetRef g = \<lparr>tx = Num gx, ty = Num gy, scale = Num gs\<rparr>"
    and fl: "flinging (velocityRef g)"
  shows "loop g =
     (if \<bar>gx - (cx + (gx - cx) * 0.15 + vx (velocityRef g))\<bar> < 0.3 \<and>
         \<bar>gy - (cy + (gy - cy) * 0.15 + vy (velocityRef g))\<bar> < 0.3 \<and>
         \<bar>gs - (cs + (gs - cs) * 0.15)\<bar> < 0.001 \<and>
         \<bar>vx (velocityRef g) * 0.92\<bar> < 0.05 \<and> \<bar>vy (velocityRef g) * 0.92\<bar> < 0.05
      then g\<lparr>transformRef := targetRef g, velocityRef := zeroVelocity,
             isAnimatingRef := False, framePending := False\<rparr>
      else g\<lparr>transformRef :=
               \<lparr>tx = Num (cx + (gx - cx) * 0.15 + vx (velocityRef g)),
                ty = Num (cy + (gy - cy) * 0.15 + vy (velocityRef g)),
                scale = Num (cs + (gs - cs) * 0.15)\<rparr>,
             velocityRef := \<lparr>vx = vx (velocityRef g) * 0.92, vy = vy (velocityRef g) * 0.92\<rparr>,
             framePending := True\<rparr>)"
  unfolding loop_def closeEnough_def Let_def cur tgt
  by (simp add: fl Num_minus)

lemma loop_still:
  assumes cur: "transformRef g = \<lparr>tx = Num cx, ty = Num cy, scale = Num cs\<rparr>"
    and tgt: "targetRef g = \<lparr>tx = Num gx, ty = Num gy, scale = Num gs\<rparr>"
    and still: "\<not> flinging (velocityRef g)"
  shows "loop g =
     (if \<bar>gx - (cx + (gx - cx) * 0.15)\<bar> < 0.3 \<and> \<bar>gy - (cy + (gy - cy) * 0.15)\<bar> < 0.3 \<and>
         \<bar>gs - (cs + (gs - cs) * 0.15)\<bar> < 0.001 \<and>
         \<bar>vx (velocityRef g)\<bar> < 0.05 \<and> \<bar>vy (velocityRef g)\<bar> < 0.05
      then g\<lparr>transformRef := targetRef g, velocityRef := zeroVelocity,
             isAnimatingRef := False, framePending := False\<rparr>
      else g\<lparr>transformRef :=
               \<lparr>tx = Num (cx + (gx - cx) * 0.15), ty = Num (cy + (gy - cy) * 0.15),
                scale = Num (cs + (gs - cs) * 0.15)\<rparr>,
             framePending := True\<rparr>)"
  unfolding loop_def closeEnough_def Let_def cur tgt
  by (simp add: still Num_minus)

lemma targetRef_loop: "targetRef (loop g) = targetRef g"
  by (simp add: loop_def Let_def)

lemma frames_not_pending: "\<not> framePending g \<Longrightarrow> frames n g = g"
  by (cases n) simp_all

lemma loop_stops: "\<not> framePending (loop g) \<Longrightarrow> stopped (loop g)"
  by (auto simp: loop_def stopped_def Let_def split: if_splits)

lemma pow_step: "(c::real) ^ n * (c * x) = c ^ Suc n * x"
  by simp

lemma settle:
  assumes "transformRef g = \<lparr>tx = Num cx, ty = Num cy, scale = Num cs\<rparr>"
    and "targetRef g = \<lparr>tx = Num gx, ty = Num gy, scale = Num gs\<rparr>"
    and "framePending g" and "\<not> flinging (velocityRef g)"
    and "0.85 ^ Suc k * \<bar>gx - cx\<bar> < 0.3"
    and "0.85 ^ Suc k * \<bar>gy - cy\<bar> < 0.3"
    and "0.85 ^ Suc k * \<bar>gs - cs\<bar> < 0.001"
  shows "stopped (frames (Suc k) g) \<and> targetRef (frames (Suc k) g) = targetRef g"
  using assms
proof (induction k arbitrary: g cx cy cs)
  case 0
  have v: "\<bar>vx (velocityRef g)\<bar> < 0.05" "\<bar>vy (velocityRef g)\<bar> < 0.05"
    using 0(4) by (simp_all add: flinging_def)
  have d: "\<bar>gx - (cx + (gx - cx) * 0.15)\<bar> = 0.85 * \<bar>gx - cx\<bar>"
    "\<bar>gy - (cy + (gy - cy) * 0.15)\<bar> = 0.85 * \<bar>gy - cy\<bar>"
    "\<bar>gs - (cs + (gs - cs) * 0.15)\<bar> = 0.85 * \<bar>gs - cs\<bar>"
    by (rule ease_gap)+
  show ?case
    using 0(3) v d 0(5-7) by (simp add: loop_still [OF 0(1) 0(2) 0(4)] stopped_def)
next
  case (Suc k)
  let ?cx = "cx + (gx - cx) * 0.15" and ?cy = "cy + (gy - cy) * 0.15"
    and ?cs = "cs + (gs - cs) * 0.15"
  have v: "\<bar>vx (velocityRef g)\<bar> < 0.05" "\<bar>vy (velocityRef g)\<bar> < 0.05"
    using Suc.prems(4) by (simp_all add: flinging_def)
  have d: "\<bar>gx - ?cx\<bar> = 0.85 * \<bar>gx - cx\<bar>" "\<bar>gy - ?cy\<bar> = 0.85 * \<bar>gy - cy\<bar>"
    "\<bar>gs - ?cs\<bar> = 0.85 * \<bar>gs - cs\<bar>"
    by (rule ease_gap)+
  show ?case
  proof (cases "framePending (loop g)")
    case False
    then have "frames (Suc (Suc k)) g = loop g"
      using Suc.prems(3) by (simp add: frames_not_pending)
    with False show ?thesis
      by (simp add: loop_stops targetRef_loop)
  next
    case True
    define C where "C \<longleftrightarrow>
      \<bar>gx - ?cx\<bar> < 0.3 \<and> \<bar>gy - ?cy\<bar> < 0.3 \<and> \<bar>gs - ?cs\<bar> < 0.001 \<and>
      \<bar>vx (velocityRef g)\<bar> < 0.05 \<and> \<bar>vy (velocityRef g)\<bar> < 0.05"
    have eq: "loop g =
      (if C then g\<lparr>transformRef := targetRef g, velocityRef := zeroVelocity,
                   isAnimatingRef := False, framePending := False\<rparr>
       else g\<lparr>transformRef := \<lparr>tx = Num ?cx, ty = Num ?cy, scale = Num ?cs\<rparr>,
              framePending := True\<rparr>)"
      unfolding C_def by (rule loop_still [OF Suc.prems(1) Suc.prems(2) Suc.prems(4)])
    have "\<not> C"
    proof
      assume C
      with eq have "\<not> framePending (loop g)" by simp
      with True show False by simp
    qed
    with eq have l: "loop g = g\<lparr>transformRef := \<lparr>tx = Num ?cx, ty = Num ?cy, scale = Num ?cs\<rparr>,
                framePending := True\<rparr>"
      by simp
    have "stopped (frames (Suc k) (loop g)) \<and> targetRef (frames (Suc k) (loop g)) = targetRef (loop g)"
    proof (rule Suc.IH)
      show "transformRef (loop g) = \<lparr>tx = Num ?cx, ty = Num ?cy, scale = Num ?cs\<rparr>"
        by (simp add: l)
      show "targetRef (loop g) = \<lparr>tx = Num gx, ty = Num gy, scale = Num gs\<rparr>"
        by (simp add: targetRef_loop Suc.prems(2))
      show "framePending (loop g)" by (rule True)
      show "\<not> flinging (velocityRef (loop g))"
        using Suc.prems(4) by (simp add: l)
      show "0.85 ^ Suc k * \<bar>gx - ?cx\<bar> < 0.3"
        using Suc.prems(5) by (simp only: d pow_step)
      show "0.85 ^ Suc k * \<bar>gy - ?cy\<bar> < 0.3"
        using Suc.prems(6) by (simp only: d pow_step)
      show "0.85 ^ Suc k * \<bar>gs - ?cs\<bar> < 0.001"
        using Suc.prems(7) by (simp only: d pow_step)
    qed
    then show ?thesis
      using Suc.prems(3) by (simp add: targetRef_loop)
  qed
qed

text \<open>The geometric decay of the gap and of the velocity reaches any positive bound.\<close>

lemma pow_small:
  fixes c e D :: real
  assumes c: "0 \<le> c" "c < 1" and e: "0 < e" and D: "0 \<le> D"
  shows "\<exists>k. \<forall>x. \<bar>x\<bar> \<le> D \<longrightarrow> c ^ Suc k * \<bar>x\<bar> < e"
proof -
  have "0 < e / (D + 1)"
    using e D by simp
  then obtain k where k: "c ^ k < e / (D + 1)"
    using real_arch_pow_inv [of "e / (D + 1)" c] c by blast
  have kD: "c ^ k * (D + 1) < e"
    using k D by (simp add: field_simps)
  have "c ^ Suc k * \<bar>x\<bar> < e" if x: "\<bar>x\<bar> \<le> D" for x
  proof -
    have "c ^ Suc k \<le> c ^ k"
      using c by (simp add: mult_left_le_one_le)
    moreover have "0 \<le> c ^ k"
      using c by simp
    ultimately have "c ^ Suc k * \<bar>x\<bar> \<le> c ^ k * (D + 1)"
      using x by (intro mult_mono) simp_all
    with kD show ?thesis by simp
  qed
  then show ?thesis by blast
qed

lemma settles_eventually:
  assumes cur: "transformRef g = \<lparr>tx = Num cx, ty = Num cy, scale = Num cs\<rparr>"
    and tgt: "targetRef g = \<lparr>tx = Num gx, ty = Num gy, scale = Num gs\<rparr>"
    and pending: "framePending g" and still: "\<not> flinging (velocityRef g)"
  shows "\<exists>n. stopped (frames n g) \<and> targetRef (frames n g) = targetRef g"
proof -
  let ?D = "\<bar>gx - cx\<bar> + \<bar>gy - cy\<bar> + \<bar>gs - cs\<bar>"
  obtain k where k: "\<And>x. \<bar>x\<bar> \<le> ?D \<Longrightarrow> 0.85 ^ Suc k * \<bar>x\<bar> < (0.001::real)"
    using pow_small [where c = "0.85" and e = "0.001" and D = "?D"] by auto
  have "0.85 ^ Suc k * \<bar>gx - cx\<bar> < (0.3::real)" "0.85 ^ Suc k * \<bar>gy - cy\<bar> < (0.3::real)"
    "0.85 ^ Suc k * \<bar>gs - cs\<bar> < (0.001::real)"
    using k [of "gx - cx"] k [of "gy - cy"] k [of "gs - cs"] by simp_all
  then show ?thesis
    using settle [OF cur tgt pending still] by blast
qed

lemma fling_decays:
  assumes "transformRef g = \<lparr>tx = Num cx, ty = Num cy, scale = Num cs\<rparr>"
    and "targetRef g = \<lparr>tx = Num gx, ty = Num gy, scale = Num gs\<rparr>"
    and "framePending g"
    and "0.92 ^ m * \<bar>vx (velocityRef g)\<bar> \<le> 0.02"
    and "0.92 ^ m * \<bar>vy (velocityRef g)\<bar> \<le> 0.02"
  shows "\<exists>n. stopped (frames n g) \<and> targetRef (frames n g) = targetRef g"
  using assms
proof (induction m arbitrary: g cx cy cs)
  case 0
  then have "\<not> flinging (velocityRef g)"
    by (simp add: flinging_def)
  with 0 show ?case
    by (intro settles_eventually)
next
  case (Suc m)
  show ?case
  proof (cases "flinging (velocityRef g)")
    case False
    with Suc.prems show ?thesis
      by (intro settles_eventually)
  next
    case fl: True
    show ?thesis
    proof (cases "framePending (loop g)")
      case False
      then have "frames (Suc 0) g = loop g"
        using Suc.prems(3) by simp
      with False have "stopped (frames (Suc 0) g) \<and> targetRef (frames (Suc 0) g) = targetRef g"
        by (simp add: loop_stops targetRef_loop)
      then show ?thesis by blast
    next
      case True
      let ?v = "velocityRef g"
      let ?cx = "cx + (gx - cx) * 0.15 + vx ?v" and ?cy = "cy + (gy - cy) * 0.15 + vy ?v"
        and ?cs = "cs + (gs - cs) * 0.15"
      define C where "C \<longleftrightarrow>
        \<bar>gx - ?cx\<bar> < 0.3 \<and> \<bar>gy - ?cy\<bar> < 0.3 \<and> \<bar>gs - ?cs\<bar> < 0.001 \<and>
        \<bar>vx ?v * 0.92\<bar> < 0.05 \<and> \<bar>vy ?v * 0.92\<bar> < 0.05"
      have eq: "loop g =
        (if C then g\<lparr>transformRef := targetRef g, velocityRef := zeroVelocity,
                     isAnimatingRef := False, framePending := False\<rparr>
         else g\<lparr>transformRef := \<lparr>tx = Num ?cx, ty = Num ?cy, scale = Num ?cs\<rparr>,
                velocityRef := \<lparr>vx = vx ?v * 0.92, vy = vy ?v * 0.92\<rparr>,
                framePending := True\<rparr>)"
        unfolding C_def by (rule loop_flinging [OF Suc.prems(1) Suc.prems(2) fl])
      have "\<not> C"
      proof
        assume C
        with eq have "\<not> framePending (loop g)" by simp
        with True show False by simp
      qed
      with eq have l: "loop g = g\<lparr>transformRef := \<lparr>tx = Num ?cx, ty = Num ?cy, scale = Num ?cs\<rparr>,
                  velocityRef := \<lparr>vx = vx ?v * 0.92, vy = vy ?v * 0.92\<rparr>, framePending := True\<rparr>"
        by simp
      have "\<exists>n. stopped (frames n (loop g)) \<and> targetRef (frames n (loop g)) = targetRef (loop g)"
      proof (rule Suc.IH)
        show "transformRef (loop g) = \<lparr>tx = Num ?cx, ty = Num ?cy, scale = Num ?cs\<rparr>"
          by (simp add: l)
        show "targetRef (loop g) = \<lparr>tx = Num gx, ty = Num gy, scale = Num gs\<rparr>"
          by (simp add: targetRef_loop Suc.prems(2))
        show "framePending (loop g)" by (rule True)
        show "0.92 ^ m * \<bar>vx (velocityRef (loop g))\<bar> \<le> 0.02"
          using Suc.prems(4) by (simp add: l abs_mult mult.assoc mult.left_commute)
        show "0.92 ^ m * \<bar>vy (velocityRef (loop g))\<bar> \<le> 0.02"
          using Suc.prems(5) by (simp add: l abs_mult mult.assoc mult.left_commute)
      qed
      then obtain n where "stopped (frames n (loop g)) \<and> targetRef (frames n (loop g)) = targetRef g"
        by (auto simp: targetRef_loop)
      then have "stopped (frames (Suc n) g) \<and> targetRef (frames (Suc n) g) = targetRef g"
        using Suc.prems(3) by simp
      then show ?thesis by blast
    qed
  qed
qed

lemma loop_terminates:
  assumes cur: "finiteT (transformRef g)" and tgt: "finiteT (targetRef g)"
    and pending: "framePending g"
  shows "\<exists>n. stopped (frames n g) \<and> targetRef (frames n g) = targetRef g"
proof -
  obtain cx cy cs where c: "transformRef g = \<lparr>tx = Num cx, ty = Num cy, scale = Num cs\<rparr>"
    using cur by (auto simp: finiteT_iff)
  obtain gx gy gs where t: "targetRef g = \<lparr>tx = Num gx, ty = Num gy, scale = Num gs\<rparr>"
    using tgt by (auto simp: finiteT_iff)
  let ?D = "\<bar>vx (velocityRef g)\<bar> + \<bar>vy (velocityRef g)\<bar>"
  obtain m where m: "\<And>x. \<bar>x\<bar> \<le> ?D \<Longrightarrow> 0.92 ^ Suc m * \<bar>x\<bar> < (0.02::real)"
    using pow_small [where c = "0.92" and e = "0.02" and D = "?D"] by auto
  have "0.92 ^ Suc m * \<bar>vx (velocityRef g)\<bar> \<le> (0.02::real)"
    "0.92 ^ Suc m * \<bar>vy (velocityRef g)\<bar> \<le> (0.02::real)"
    using m [of "vx (velocityRef g)"] m [of "vy (velocityRef g)"] by simp_all
  then show ?thesis
    by (rule fling_decays [OF c t pending])
qed

lemma fling_released_eq:
  "fling_released =
     \<lparr>transformRef = \<lparr>tx = Num 0, ty = Num 0, scale = Num 1\<rparr>,
      targetRef = \<lparr>tx = Num 0, ty = Num 0, scale = Num 1\<rparr>,
      lastPinchDistance = None, velocityRef = \<lparr>vx = 0.1, vy = 0\<rparr>,
      pointers = [], lastPointerRef = None, isAnimatingRef = True, framePending = True\<rparr>"
  by (simp add: fling_released_def fling_moved_def fling_start_def onPointerUp_def
      map_delete_def gesture_evals)

lemma fling_released_coasting: "fling_released = coasting 0 0.1"
  by (simp add: fling_released_eq coasting_def)

lemma loop_coasting_step:
  assumes "0.02 < v"
  shows "loop (coasting x v) =
     (if \<bar>0 - (x + (0 - x) * 0.15 + v)\<bar> < 0.3 \<and> \<bar>v * 0.92\<bar> < 0.05
      then (coasting x v)\<lparr>transformRef := targetRef (coasting x v),
             velocityRef := zeroVelocity, isAnimatingRef := False, framePending := False\<rparr>
      else coasting (x + (0 - x) * 0.15 + v) (v * 0.92))"
proof -
  have fl: "flinging (velocityRef (coasting x v))"
    using assms by (simp add: flinging_def coasting_def)
  show ?thesis
    by (subst loop_flinging
          [where cx = x and cy = 0 and cs = 1 and gx = 0 and gy = 0 and gs = 1, OF _ _ fl])
       (simp_all add: coasting_def)
qed

lemma loop_coasting_fast:
  assumes "0.02 < v" and "0.05 \<le> 0.92 * v"
  shows "loop (coasting x v) = coasting (0.85 * x + v) (0.92 * v)"
  using assms by (simp add: loop_coasting_step algebra_simps)

lemma loop_coasting_far:
  assumes "0.02 < v" and "0.3 \<le> 0.85 * x + v"
  shows "loop (coasting x v) = coasting (0.85 * x + v) (0.92 * v)"
  using assms by (simp add: loop_coasting_step algebra_simps)

lemma frames_coasting: "frames (Suc n) (coasting x v) = frames n (loop (coasting x v))"
  by (simp add: coasting_def)

lemma fling_frame9_eq:
  "fling_frame9 =
     coasting (34363488143336221 / 100000000000000000) (1801152661463 / 38146972656250)"
  by (simp add: fling_frame9_def fling_released_coasting eval_nat_numeral frames_coasting
      loop_coasting_fast loop_coasting_far del: frames.simps(2))

text \<open>
  C8, as the code has it. With no further input, a frame that starts from finite
  transforms first eases the displayed transform 15% of the way to the target; if a
  velocity component exceeds 0.02 in magnitude it then adds the velocity to the displayed
  translation and multiplies the velocity by 0.92. The frame then tests the values it has
  just computed: unless the displayed transform is within (0.3, 0.3, 0.001) of the target
  and both velocity components are below 0.05, it keeps these values and requests another
  frame; otherwise it sets the display to the target, resets the velocity to zero and
  requests nothing. That last frame is reached after finitely many frames.
\<close>

theorem fling_runs_until_settled:
  fixes cx cy cs gx gy gs :: real
  assumes cur: "transformRef g = \<lparr>tx = Num cx, ty = Num cy, scale = Num cs\<rparr>"
    and tgt: "targetRef g = \<lparr>tx = Num gx, ty = Num gy, scale = Num gs\<rparr>"
    and pending: "framePending g"
  shows
    "(let v = velocityRef g;
          fling = (0.02 < \<bar>vx v\<bar> \<or> 0.02 < \<bar>vy v\<bar>);
          x = cx + (gx - cx) * 0.15 + (if fling then vx v else 0);
          y = cy + (gy - cy) * 0.15 + (if fling then vy v else 0);
          s = cs + (gs - cs) * 0.15;
          w = (if fling then \<lparr>vx = vx v * 0.92, vy = vy v * 0.92\<rparr> else v);
          settled = (\<bar>gx - x\<bar> < 0.3 \<and> \<bar>gy - y\<bar> < 0.3 \<and> \<bar>gs - s\<bar> < 0.001 \<and>
                     \<bar>vx w\<bar> < 0.05 \<and> \<bar>vy w\<bar> < 0.05)
      in loop g =
           (if settled
            then g\<lparr>transformRef := targetRef g, velocityRef := zeroVelocity,
                   isAnimatingRef := False, framePending := False\<rparr>
            else g\<lparr>transformRef := \<lparr>tx = Num x, ty = Num y, scale = Num s\<rparr>,
                   velocityRef := w, framePending := True\<rparr>)) \<and>
     (\<exists>n. stopped (frames n g) \<and> targetRef (frames n g) = targetRef g)"
proof (rule conjI)
  show "\<exists>n. stopped (frames n g) \<and> targetRef (frames n g) = targetRef g"
    using cur tgt pending by (intro loop_terminates) (simp_all add: finiteT_def)
next
  show "let v = velocityRef g;
          fling = (0.02 < \<bar>vx v\<bar> \<or> 0.02 < \<bar>vy v\<bar>);
          x = cx + (gx - cx) * 0.15 + (if fling then vx v else 0);
          y = cy + (gy - cy) * 0.15 + (if fling then vy v else 0);
          s = cs + (gs - cs) * 0.15;
          w = (if fling then \<lparr>vx = vx v * 0.92, vy = vy v * 0.92\<rparr> else v);
          settled = (\<bar>gx - x\<bar> < 0.3 \<and> \<bar>gy - y\<bar> < 0.3 \<and> \<bar>gs - s\<bar> < 0.001 \<and>
                     \<bar>vx w\<bar> < 0.05 \<and> \<bar>vy w\<bar> < 0.05)
      in loop g =
           (if settled
            then g\<lparr>transformRef := targetRef g, velocityRef := zeroVelocity,
                   isAnimatingRef := False, framePending := False\<rparr>
            else g\<lparr>transformRef := \<lparr>tx = Num x, ty = Num y, scale = Num s\<rparr>,
                   velocityRef := w, framePending := True\<rparr>)"
  proof (cases "flinging (velocityRef g)")
    case True
    then have f: "0.02 < \<bar>vx (velocityRef g)\<bar> \<or> 0.02 < \<bar>vy (velocityRef g)\<bar>"
      by (simp add: flinging_def)
    show ?thesis
      unfolding Let_def loop_flinging [OF cur tgt True] using f by simp
  next
    case False
    then have f: "\<not> (0.02 < \<bar>vx (velocityRef g)\<bar> \<or> 0.02 < \<bar>vy (velocityRef g)\<bar>)"
      by (simp add: flinging_def)
    have same: "g\<lparr>transformRef := T, velocityRef := velocityRef g, framePending := True\<rparr> =
                g\<lparr>transformRef := T, framePending := True\<rparr>" for T
      by (cases g) simp
    show ?thesis
      unfolding Let_def loop_still [OF cur tgt False] using f by (simp add: same)
  qed
qed

text \<open>The first frame after the release of the slow drag.\<close>

theorem fling_runs_until_settled_witness:
  "transformRef fling_released = \<lparr>tx = Num 0, ty = Num 0, scale = Num 1\<rparr> \<and>
   targetRef fling_released = \<lparr>tx = Num 0, ty = Num 0, scale = Num 1\<rparr> \<and>
   framePending fling_released \<and>
   velocityRef fling_released = \<lparr>vx = 0.1, vy = 0\<rparr> \<and>
   loop fling_released =
     fling_released\<lparr>transformRef := \<lparr>tx = Num 0.1, ty = Num 0, scale = Num 1\<rparr>,
                    velocityRef := \<lparr>vx = 0.092, vy = 0\<rparr>, framePending := True\<rparr> \<and>
   (\<exists>n. stopped (frames n fling_released) \<and>
        targetRef (frames n fling_released) = targetRef fling_released)"
proof -
  have c: "transformRef fling_released = \<lparr>tx = Num 0, ty = Num 0, scale = Num 1\<rparr>"
    and t: "targetRef fling_released = \<lparr>tx = Num 0, ty = Num 0, scale = Num 1\<rparr>"
    and p: "framePending fling_released"
    and v: "velocityRef fling_released = \<lparr>vx = 0.1, vy = 0\<rparr>"
    by (simp_all add: fling_released_eq)
  note frame = fling_runs_until_settled [OF c t p]
  from frame have l: "loop fling_released =
     fling_released\<lparr>transformRef := \<lparr>tx = Num 0.1, ty = Num 0, scale = Num 1\<rparr>,
                    velocityRef := \<lparr>vx = 0.092, vy = 0\<rparr>, framePending := True\<rparr>"
    unfolding Let_def v by simp
  from frame have e: "\<exists>n. stopped (frames n fling_released) \<and>
        targetRef (frames n fling_released) = targetRef fling_released"
    by blast
  from c t p v l e show ?thesis
    by blast
qed

text \<open>
  C8 as stated fails on the slow drag: nine frames after the release both velocity
  components are below 0.05, but the image is still 0.34 px from the target, so the
  velocity is not reset, another frame is requested, and the frame after that applies the
  velocity again.
\<close>

theorem fling_outlives_velocity_threshold:
  "pointers fling_released = [] \<and>
   \<bar>vx (velocityRef fling_frame9)\<bar> < 0.05 \<and> \<bar>vy (velocityRef fling_frame9)\<bar> < 0.05 \<and>
   velocityRef fling_frame9 \<noteq> zeroVelocity \<and> framePending fling_frame9 \<and>
   velocityRef (loop fling_frame9) \<noteq> zeroVelocity \<and> framePending (loop fling_frame9)"
  by (simp add: fling_frame9_eq fling_released_eq loop_coasting_far)
     (simp add: coasting_def zeroVelocity_def)

section \<open>Properties of the edit pipeline\<close>

subsection \<open>The undo stack\<close>

lemma take_push: "take 10 (A @ c # take 9 S) = take 10 (A @ c # S)"
  by (cases "10 - length A") (simp_all add: min_def)

lemma undoStack_applyEdits:
  "length (undoStack e) \<le> 10 \<Longrightarrow>
   undoStack (applyEdits e us) =
     take 10 (rev (butlast (currentImageUri e # us)) @ undoStack e)"
proof (induction us arbitrary: e)
  case Nil
  then show ?case by (simp add: applyEdits_def)
next
  case (Cons u us)
  have "undoStack (applyEdits e (u # us)) = undoStack (applyEdits (commit u e) us)"
    by (simp add: applyEdits_def)
  also have "\<dots> = take 10 (rev (butlast (u # us)) @ currentImageUri e # take 9 (undoStack e))"
    by (subst Cons.IH) (simp_all add: commit_def pushUndo_def setCurrentImageUri_def)
  also have "\<dots> = take 10 (rev (butlast (u # us)) @ currentImageUri e # undoStack e)"
    by (rule take_push)
  finally show ?case by simp
qed

lemma currentImageUri_applyEdits:
  "currentImageUri (applyEdits e us) = last (currentImageUri e # us)"
  by (induction us arbitrary: e)
     (simp_all add: applyEdits_def commit_def pushUndo_def setCurrentImageUri_def)

text \<open>
  C4. Starting from an empty undo stack, after any sequence of N successful edits the stack
  has length min(N, 10) and holds the earlier current rasters, the most recent first; a
  further push onto a full stack drops the oldest entry.
\<close>

theorem undo_stack_bounded:
  assumes "undoStack e = []"
  shows "length (undoStack (applyEdits e us)) = min (length us) 10 \<and>
         undoStack (applyEdits e us) = take 10 (rev (butlast (currentImageUri e # us))) \<and>
         undoStack (commit u (applyEdits e us)) =
           currentImageUri (applyEdits e us) #
             (if length (undoStack (applyEdits e us)) < 10 then undoStack (applyEdits e us)
              else butlast (undoStack (applyEdits e us)))"
proof -
  have s: "undoStack (applyEdits e us) = take 10 (rev (butlast (currentImageUri e # us)))"
    using assms by (simp add: undoStack_applyEdits)
  have l: "length (undoStack (applyEdits e us)) = min (length us) 10"
    by (simp add: s)
  have "take 9 xs = (if length xs < 10 then xs else butlast xs)"
    if "length xs \<le> 10" for xs :: "string list"
    using that by (cases "length xs = 10") (simp_all add: butlast_conv_take)
  then have "undoStack (commit u (applyEdits e us)) =
           currentImageUri (applyEdits e us) #
             (if length (undoStack (applyEdits e us)) < 10 then undoStack (applyEdits e us)
              else butlast (undoStack (applyEdits e us)))"
    using l by (simp add: commit_def pushUndo_def setCurrentImageUri_def)
  with s l show ?thesis by blast
qed

theorem undo_stack_bounded_witness:
  "undoStack editor0 = [] \<and>
   length (undoStack (applyEdits editor0 twelve_edits)) = 10 \<and>
   undoStack (applyEdits editor0 twelve_edits) =
     [''data:11'', ''data:10'', ''data:9'', ''data:8'', ''data:7'', ''data:6'', ''data:5'',
      ''data:4'', ''data:3'', ''data:2''] \<and>
   undoStack (commit ''data:13'' (applyEdits editor0 twelve_edits)) =
     [''data:12'', ''data:11'', ''data:10'', ''data:9'', ''data:8'', ''data:7'', ''data:6'',
      ''data:5'', ''data:4'', ''data:3'']"
proof -
  have h: "undoStack editor0 = []"
    by (simp add: editor0_def)
  have c: "currentImageUri (applyEdits editor0 twelve_edits) = ''data:12''"
    by (simp add: currentImageUri_applyEdits twelve_edits_def)
  show ?thesis
    using undo_stack_bounded [OF h, of twelve_edits "''data:13''"] h
    by (simp add: c) (simp add: twelve_edits_def editor0_def)
qed

lemma handleUndo_Cons:
  "undoStack e = latest # rest \<Longrightarrow> latest \<noteq> [] \<Longrightarrow>
   handleUndo e = e\<lparr>currentImageUri := latest, undoStack := rest\<rparr>"
  by (simp add: handleUndo_def)

lemma handleUndo_Nil: "undoStack e = [] \<Longrightarrow> handleUndo e = e"
  by (simp add: handleUndo_def)

lemma handleUndo_iterated:
  assumes "\<forall>u\<in>set xs. u \<noteq> []" and "undoStack e = xs" and "k \<le> length xs"
  shows "undoStack ((handleUndo ^^ k) e) = drop k xs \<and>
         (0 < k \<longrightarrow> currentImageUri ((handleUndo ^^ k) e) = xs ! (k - 1))"
  using assms(3)
proof (induction k)
  case 0
  show ?case by (simp add: assms(2))
next
  case (Suc k)
  then have k: "k < length xs" by simp
  let ?e = "(handleUndo ^^ k) e"
  have st: "undoStack ?e = xs ! k # drop (Suc k) xs"
    using Suc k by (simp add: Cons_nth_drop_Suc)
  moreover have "xs ! k \<noteq> []"
    using assms(1) k by simp
  ultimately have "handleUndo ?e = ?e\<lparr>currentImageUri := xs ! k, undoStack := drop (Suc k) xs\<rparr>"
    by (rule handleUndo_Cons)
  then show ?case by simp
qed

text \<open>
  C5. On a stack whose most recent entry is a raster (a non-empty data URL) \<open>handleUndo\<close>
  removes that entry and makes it current; on the empty stack it changes nothing, and it
  has no failing branch. After at most ten edits from an empty stack, k undos bring back
  the raster that was current k edits ago: the archived states return in the reverse of
  the order in which they were archived.
\<close>

theorem undo_pops_most_recent:
  "(undoStack e = latest # rest \<and> latest \<noteq> [] \<longrightarrow>
      handleUndo e = e\<lparr>currentImageUri := latest, undoStack := rest\<rparr>) \<and>
   (undoStack e = [] \<longrightarrow> handleUndo e = e) \<and>
   (undoStack e = [] \<and> length us \<le> 10 \<and> (\<forall>u\<in>set (currentImageUri e # us). u \<noteq> []) \<and>
    k \<le> length us \<longrightarrow>
      currentImageUri ((handleUndo ^^ k) (applyEdits e us)) =
        (currentImageUri e # us) ! (length us - k) \<and>
      undoStack ((handleUndo ^^ k) (applyEdits e us)) =
        drop k (rev (butlast (currentImageUri e # us))))"
proof (intro conjI impI)
  assume "undoStack e = latest # rest \<and> latest \<noteq> []"
  then show "handleUndo e = e\<lparr>currentImageUri := latest, undoStack := rest\<rparr>"
    by (simp add: handleUndo_Cons)
next
  assume "undoStack e = []"
  then show "handleUndo e = e" by (rule handleUndo_Nil)
next
  assume a: "undoStack e = [] \<and> length us \<le> 10 \<and>
    (\<forall>u\<in>set (currentImageUri e # us). u \<noteq> []) \<and> k \<le> length us"
  let ?h = "currentImageUri e # us"
  let ?xs = "rev (butlast ?h)"
  have xs: "undoStack (applyEdits e us) = ?xs"
    using a by (simp add: undoStack_applyEdits)
  have ne: "\<forall>u\<in>set ?xs. u \<noteq> []"
    using a by (auto dest: in_set_butlastD)
  have len: "length ?xs = length us" by simp
  have it: "undoStack ((handleUndo ^^ k) (applyEdits e us)) = drop k ?xs \<and>
      (0 < k \<longrightarrow> currentImageUri ((handleUndo ^^ k) (applyEdits e us)) = ?xs ! (k - 1))"
  proof (rule handleUndo_iterated [OF ne xs])
    show "k \<le> length ?xs" unfolding len using a by blast
  qed
  show "undoStack ((handleUndo ^^ k) (applyEdits e us)) = drop k ?xs"
    using it by blast
  show "currentImageUri ((handleUndo ^^ k) (applyEdits e us)) = ?h ! (length us - k)"
  proof (cases k)
    case 0
    then show ?thesis
      by (simp add: currentImageUri_applyEdits last_conv_nth)
  next
    case (Suc j)
    with a have j: "j < length us" by simp
    define bs where "bs = butlast ?h"
    have lb: "length bs = length us"
      by (simp add: bs_def)
    have "?xs ! j = rev bs ! j"
      by (simp only: bs_def)
    also have "\<dots> = bs ! (length us - Suc j)"
      using j lb by (simp add: rev_nth)
    also have "\<dots> = ?h ! (length us - Suc j)"
      unfolding bs_def by (rule nth_butlast) (use j in auto)
    finally show ?thesis
      using it Suc by simp
  qed
qed

theorem undo_pops_most_recent_witness:
  "undoStack editor0 = [] \<and> handleUndo editor0 = editor0 \<and>
   undoStack (applyEdits editor0 three_edits) = [''data:2'', ''data:1'', ''data:0''] \<and>
   handleUndo (applyEdits editor0 three_edits) =
     (applyEdits editor0 three_edits)
       \<lparr>currentImageUri := ''data:2'', undoStack := [''data:1'', ''data:0'']\<rparr> \<and>
   currentImageUri ((handleUndo ^^ 2) (applyEdits editor0 three_edits)) = ''data:1'' \<and>
   undoStack ((handleUndo ^^ 2) (applyEdits editor0 three_edits)) = [''data:0'']"
proof -
  have h: "undoStack editor0 = []"
    by (simp add: editor0_def)
  have s: "undoStack (applyEdits editor0 three_edits) = [''data:2'', ''data:1'', ''data:0'']"
    by (simp add: undoStack_applyEdits h) (simp add: three_edits_def editor0_def)
  have a: "handleUndo editor0 = editor0"
    using undo_pops_most_recent [of editor0] h by blast
  have b: "handleUndo (applyEdits editor0 three_edits) =
     (applyEdits editor0 three_edits)
       \<lparr>currentImageUri := ''data:2'', undoStack := [''data:1'', ''data:0'']\<rparr>"
    using undo_pops_most_recent
      [of "applyEdits editor0 three_edits" "''data:2''" "[''data:1'', ''data:0'']"] s
    by simp
  have p: "length three_edits \<le> 10"
    "\<forall>u\<in>set (currentImageUri editor0 # three_edits). u \<noteq> []" "2 \<le> length three_edits"
    by (simp_all add: three_edits_def editor0_def)
  have c: "currentImageUri ((handleUndo ^^ 2) (applyEdits editor0 three_edits)) =
        (currentImageUri editor0 # three_edits) ! (length three_edits - 2) \<and>
      undoStack ((handleUndo ^^ 2) (applyEdits editor0 three_edits)) =
        drop 2 (rev (butlast (currentImageUri editor0 # three_edits)))"
    using undo_pops_most_recent [of editor0 _ _ three_edits 2] h p by blast
  have "currentImageUri ((handleUndo ^^ 2) (applyEdits editor0 three_edits)) = ''data:1''"
    "undoStack ((handleUndo ^^ 2) (applyEdits editor0 three_edits)) = [''data:0'']"
    using c by (simp_all add: three_edits_def editor0_def)
  with h s a b show ?thesis by blast
qed

subsection \<open>Failures\<close>

lemma background_remove_rejected:
  "handleBackgroundRemove e Rejected =
     Finished (e\<lparr>isProcessing := False, processingMessage := ''Processing...'',
                 alerts := alerts e @ [''Background removal failed.'']\<rparr>)"
  by (simp add: handleBackgroundRemove_def startProcessing_def endProcessing_def report_def)

lemma background_remove_keeps_raster:
  "r = Rejected \<or> r = Pending \<Longrightarrow>
   currentImageUri (state_of (handleBackgroundRemove e r)) = currentImageUri e \<and>
   undoStack (state_of (handleBackgroundRemove e r)) = undoStack e"
  by (auto simp: handleBackgroundRemove_def startProcessing_def endProcessing_def report_def)

lemma apply_overlay_keeps_raster_on_failure:
  assumes "mainImage r \<noteq> Loaded \<or> overlayImage r \<noteq> Loaded \<or> \<not> context2d r \<or>
           \<not> containerMounted r \<or> dataURL r = None"
  shows "currentImageUri (state_of (handleApplyOverlay e r)) = currentImageUri e \<and>
         undoStack (state_of (handleApplyOverlay e r)) = undoStack e"
  using assms
  by (auto simp: handleApplyOverlay_def startProcessing_def endProcessing_def report_def Let_def
      split: option.splits)

text \<open>
  C9. The claim: every failing edit operation, a decode failure included, is caught and
  reported, and leaves the current raster and the undo stack as they were. The rasters and
  the stack are indeed untouched by every failure (the two lemmas above), and a rejected
  background removal is reported. But \<open>handleApplyOverlay\<close> awaits the \<open>load\<close> event of
  each image and installs no \<open>error\<close> handler: when the overlay cannot be decoded the
  handler never resumes, nothing is reported and \<open>isProcessing\<close> stays set.
\<close>

theorem overlay_decode_failure_not_reported:
  "handleApplyOverlay editor_with_overlay overlay_undecodable =
     Suspended (editor_with_overlay\<lparr>isProcessing := True,
                  processingMessage := ''Applying overlay...''\<rparr>) \<and>
   alerts (state_of (handleApplyOverlay editor_with_overlay overlay_undecodable)) = [] \<and>
   isProcessing (state_of (handleApplyOverlay editor_with_overlay overlay_undecodable)) \<and>
   currentImageUri (state_of (handleApplyOverlay editor_with_overlay overlay_undecodable)) =
     currentImageUri editor_with_overlay \<and>
   undoStack (state_of (handleApplyOverlay editor_with_overlay overlay_undecodable)) =
     undoStack editor_with_overlay"
  by (simp add: handleApplyOverlay_def editor_with_overlay_def overlay_undecodable_def
      startProcessing_def Let_def)

subsection \<open>Crop to an aspect ratio\<close>

lemma ratios_positive: "list_all (\<lambda>r. 0 < ratio_w r \<and> 0 < ratio_h r) ratios"
  by (simp add: ratios_def)

text \<open>
  C6. For an image of W by H pixels (H positive) and a positive target ratio r: if
  W / H > r the crop keeps the full height, its width is round(H r) and it starts at
  sx = round((W - cropW) / 2), sy = 0; otherwise it keeps the full width, its height is
  round(W / r) and it starts at sy = round((H - cropH) / 2), sx = 0. The canvas has the
  size of the crop and is encoded as PNG. The witness is the 1:1 crop of a 400 by 300
  image: 300 by 300 from sx = 50, sy = 0.
\<close>

theorem crop_to_ratio_geometry:
  assumes "0 < H" and "0 < ratio_w r" and "0 < ratio_h r"
  shows "cropToRatio W H r =
     (let targetRatio = ratio_w r / ratio_h r
      in if real W / real H > targetRatio
         then (let cropW = round (real H * targetRatio)
               in \<lparr>crop_sx = Num (of_int (round ((real W - of_int cropW) / 2))),
                   crop_sy = Num 0,
                   crop_srcW = Num (of_int cropW), crop_srcH = Num (real H),
                   canvas_width = Num (of_int cropW), canvas_height = Num (real H),
                   crop_mime = ''image/png''\<rparr>)
         else (let cropH = round (real W / targetRatio)
               in \<lparr>crop_sx = Num 0,
                   crop_sy = Num (of_int (round ((real H - of_int cropH) / 2))),
                   crop_srcW = Num (real W), crop_srcH = Num (of_int cropH),
                   canvas_width = Num (real W), canvas_height = Num (of_int cropH),
                   crop_mime = ''image/png''\<rparr>))"
  using assms by (simp add: cropToRatio_def Num_minus Let_def)

theorem crop_to_ratio_geometry_witness:
  "(0::nat) < 300 \<and> 0 < ratio_w (ratios ! 0) \<and> 0 < ratio_h (ratios ! 0) \<and>
   ratio_name (ratios ! 0) = ''1:1'' \<and>
   cropToRatio 400 300 (ratios ! 0) =
     \<lparr>crop_sx = Num 50, crop_sy = Num 0, crop_srcW = Num 300, crop_srcH = Num 300,
      canvas_width = Num 300, canvas_height = Num 300, crop_mime = ''image/png''\<rparr>"
proof -
  have h: "(0::nat) < 300" "0 < ratio_w (ratios ! 0)" "0 < ratio_h (ratios ! 0)"
    by (simp_all add: ratios_def)
  have n: "ratio_name (ratios ! 0) = ''1:1''"
    by (simp add: ratios_def)
  have "cropToRatio 400 300 (ratios ! 0) =
     \<lparr>crop_sx = Num 50, crop_sy = Num 0, crop_srcW = Num 300, crop_srcH = Num 300,
      canvas_width = Num 300, canvas_height = Num 300, crop_mime = ''image/png''\<rparr>"
    unfolding crop_to_ratio_geometry [OF h, of 400]
    by (simp add: ratios_def Let_def)
  with h n show ?thesis by blast
qed

subsection \<open>Horizontal flip\<close>

lemmas flip_evals =
  flipHorizontal_def drawImage_def toDataURL_png_def canvasPixel_def sourceIndex_def
  freshContext_def ctx_translate_def ctx_scale_def Let_def premultiply_def unpremultiply_def
      upt_conv_Cons

lemma premultiply_opaque: "premultiply c 255 = c"
proof -
  have "(2 * unat c * 255 + 255) div 510 = unat c"
    by simp
  then show ?thesis
    by (simp add: premultiply_def)
qed

lemma unpremultiply_opaque: "unpremultiply c 255 = c"
proof -
  have "(510 * unat c + 255) div 510 = unat c"
    by simp
  moreover have "unat c \<le> 255"
    using unsigned_less [of c, where 'a = nat] by simp
  ultimately show ?thesis
    by (simp add: unpremultiply_def min_absorb2)
qed

lemma opaque_canvasExact: "canvasExact (r, g, b, 255)"
  by (simp add: canvasExact_def throughCanvas_def premultiply_opaque unpremultiply_opaque)

lemma flip_dims:
  "naturalWidth (flipHorizontal img) = naturalWidth img"
  "naturalHeight (flipHorizontal img) = naturalHeight img"
  by (simp_all add: flipHorizontal_def drawImage_def toDataURL_png_def Let_def)

lemma flip_wellFormed: "wellFormed (flipHorizontal img)"
  by (simp add: wellFormed_def flipHorizontal_def drawImage_def toDataURL_png_def Let_def
      list_all_iff)

lemma flip_pixel:
  assumes "X < naturalWidth img" and "Y < naturalHeight img"
  shows "pixels (flipHorizontal img) ! Y ! X =
         throughCanvas (pixels img ! Y ! (naturalWidth img - 1 - X))"
proof -
  have "nat (int (naturalWidth img) - 1 - int X) = naturalWidth img - 1 - X"
    using assms by simp
  then show ?thesis
    using assms
    by (simp add: flipHorizontal_def drawImage_def toDataURL_png_def canvasPixel_def
        sourceIndex_def freshContext_def ctx_translate_def ctx_scale_def throughCanvas_def
        Let_def)
qed

lemma flip_flip:
  assumes wf: "wellFormed img"
    and exact: "list_all (list_all canvasExact) (pixels img)"
  shows "flipHorizontal (flipHorizontal img) = img"
proof -
  let ?f = "flipHorizontal img" and ?ff = "flipHorizontal (flipHorizontal img)"
  have h: "length (pixels img) = naturalHeight img"
    and w: "\<And>Y. Y < naturalHeight img \<Longrightarrow> length (pixels img ! Y) = naturalWidth img"
    using wf by (auto simp: wellFormed_def list_all_length)
  have ex: "throughCanvas (pixels img ! Y ! X) = pixels img ! Y ! X"
    if "Y < naturalHeight img" and "X < naturalWidth img" for X Y
    using exact that h w [of Y] by (simp add: list_all_length canvasExact_def)
  have lh: "length (pixels ?ff) = naturalHeight img"
    by (simp add: flipHorizontal_def drawImage_def toDataURL_png_def Let_def)
  have lw: "length (pixels ?ff ! Y) = naturalWidth img" if "Y < naturalHeight img" for Y
    using that by (simp add: flipHorizontal_def drawImage_def toDataURL_png_def Let_def)
  have px: "pixels ?ff ! Y ! X = pixels img ! Y ! X"
    if Y: "Y < naturalHeight img" and X: "X < naturalWidth img" for X Y
  proof -
    let ?X' = "naturalWidth img - 1 - X"
    have X': "?X' < naturalWidth img" and again: "naturalWidth img - 1 - ?X' = X"
      using X by simp_all
    have "pixels ?ff ! Y ! X = throughCanvas (pixels ?f ! Y ! ?X')"
      using that flip_pixel [of X ?f Y] by (simp add: flip_dims)
    also have "pixels ?f ! Y ! ?X' = throughCanvas (pixels img ! Y ! X)"
      using flip_pixel [OF X' Y] by (simp only: again)
    finally have "pixels ?ff ! Y ! X = throughCanvas (throughCanvas (pixels img ! Y ! X))" .
    then show ?thesis
      using Y X by (simp add: ex)
  qed
  have "pixels ?ff = pixels img"
  proof (rule nth_equalityI)
    show "length (pixels ?ff) = length (pixels img)"
      by (simp add: lh h)
    fix Y assume "Y < length (pixels ?ff)"
    then have Y: "Y < naturalHeight img" by (simp add: lh)
    show "pixels ?ff ! Y = pixels img ! Y"
    proof (rule nth_equalityI)
      show "length (pixels ?ff ! Y) = length (pixels img ! Y)"
        using Y by (simp add: lw w)
      fix X assume "X < length (pixels ?ff ! Y)"
      then have "X < naturalWidth img" using Y by (simp add: lw)
      with Y show "pixels ?ff ! Y ! X = pixels img ! Y ! X" by (rule px)
    qed
  qed
  then show ?thesis
    by (cases img) (simp add: flip_dims Bitmap.equality)
qed

lemma flip_sample:
  "flipHorizontal sample_bitmap =
     \<lparr>naturalWidth = 3, naturalHeight = 2,
      pixels = [[(0, 0, 255, 128), (0, 255, 0, 255), (255, 0, 0, 255)],
                [(0, 0, 21, 12), (0, 0, 0, 8), (0, 0, 0, 4)]]\<rparr>"
  by (simp add: flip_evals sample_bitmap_def)

lemma flip_flip_sample:
  "flipHorizontal (flipHorizontal sample_bitmap) =
     \<lparr>naturalWidth = 3, naturalHeight = 2,
      pixels = [[(255, 0, 0, 255), (0, 255, 0, 255), (0, 0, 255, 128)],
                [(0, 0, 0, 4), (0, 0, 0, 8), (0, 0, 21, 12)]]\<rparr>"
  by (simp add: flip_sample) (simp add: flip_evals)

lemma flip_opaque:
  "flipHorizontal opaque_bitmap =
     \<lparr>naturalWidth = 3, naturalHeight = 2,
      pixels = [[(0, 0, 255, 255), (0, 255, 0, 255), (255, 0, 0, 255)],
                [(9, 10, 11, 255), (5, 6, 7, 255), (1, 2, 3, 255)]]\<rparr>"
  by (simp add: flip_evals opaque_bitmap_def)

text \<open>
  C7, as the code has it. The flip keeps width and height, and its pixel \<open>(X, Y)\<close> is the
  source pixel \<open>(W - 1 - X, Y)\<close> after one trip through the canvas, which stores colours
  premultiplied by alpha. A fully opaque pixel comes back unchanged, and two flips in
  succession give back the original image whenever every pixel of it is one that the
  canvas returns unchanged, so in particular for every fully opaque image.
\<close>

theorem flip_horizontal_mirrors:
  assumes "wellFormed img"
  shows "naturalWidth (flipHorizontal img) = naturalWidth img \<and>
         naturalHeight (flipHorizontal img) = naturalHeight img \<and>
         wellFormed (flipHorizontal img) \<and>
         (\<forall>Y < naturalHeight img. \<forall>X < naturalWidth img.
            pixels (flipHorizontal img) ! Y ! X =
            throughCanvas (pixels img ! Y ! (naturalWidth img - 1 - X))) \<and>
         (\<forall>r g b. throughCanvas (r, g, b, 255) = (r, g, b, 255)) \<and>
         (list_all (list_all canvasExact) (pixels img) \<longrightarrow>
            flipHorizontal (flipHorizontal img) = img)"
  using assms opaque_canvasExact
  by (simp add: flip_dims flip_wellFormed flip_pixel flip_flip canvasExact_def)

text \<open>The flip of the opaque sample image, and its double flip.\<close>

theorem flip_horizontal_mirrors_witness:
  "wellFormed opaque_bitmap \<and> list_all (list_all canvasExact) (pixels opaque_bitmap) \<and>
   flipHorizontal opaque_bitmap =
     \<lparr>naturalWidth = 3, naturalHeight = 2,
      pixels = [[(0, 0, 255, 255), (0, 255, 0, 255), (255, 0, 0, 255)],
                [(9, 10, 11, 255), (5, 6, 7, 255), (1, 2, 3, 255)]]\<rparr> \<and>
   flipHorizontal (flipHorizontal opaque_bitmap) = opaque_bitmap"
proof -
  have h: "wellFormed opaque_bitmap"
    by (simp add: wellFormed_def opaque_bitmap_def)
  have e: "list_all (list_all canvasExact) (pixels opaque_bitmap)"
    by (simp add: opaque_bitmap_def opaque_canvasExact)
  from flip_horizontal_mirrors [OF h] e
  have "flipHorizontal (flipHorizontal opaque_bitmap) = opaque_bitmap"
    by blast
  with h e flip_opaque show ?thesis by blast
qed

text \<open>
  C7 as stated fails on translucent pixels: the second row of the sample image has alpha
  4, 8 and 12, the canvas keeps almost nothing of its colours, and two flips return
  \<open>(0, 0, 0, 4), (0, 0, 0, 8), (0, 0, 21, 12)\<close> where the original has
  \<open>(1, 2, 3, 4), (5, 6, 7, 8), (9, 10, 11, 12)\<close>.
\<close>

theorem flip_twice_alters_translucent_pixels:
  "wellFormed sample_bitmap \<and>
   pixels sample_bitmap ! 1 = [(1, 2, 3, 4), (5, 6, 7, 8), (9, 10, 11, 12)] \<and>
   pixels (flipHorizontal sample_bitmap) ! 1 = [(0, 0, 21, 12), (0, 0, 0, 8), (0, 0, 0, 4)] \<and>
   pixels (flipHorizontal (flipHorizontal sample_bitmap)) ! 1 =
     [(0, 0, 0, 4), (0, 0, 0, 8), (0, 0, 21, 12)] \<and>
   flipHorizontal (flipHorizontal sample_bitmap) \<noteq> sample_bitmap"
proof -
  have "flipHorizontal (flipHorizontal sample_bitmap) \<noteq> sample_bitmap"
    unfolding flip_flip_sample by (simp add: sample_bitmap_def)
  moreover have "wellFormed sample_bitmap"
    by (simp add: wellFormed_def sample_bitmap_def)
  moreover have "pixels sample_bitmap ! 1 = [(1, 2, 3, 4), (5, 6, 7, 8), (9, 10, 11, 12)]"
    by (simp add: sample_bitmap_def)
  moreover have "pixels (flipHorizontal sample_bitmap) ! 1 =
      [(0, 0, 21, 12), (0, 0, 0, 8), (0, 0, 0, 4)]"
    unfolding flip_sample by simp
  moreover have "pixels (flipHorizontal (flipHorizontal sample_bitmap)) ! 1 =
      [(0, 0, 0, 4), (0, 0, 0, 8), (0, 0, 21, 12)]"
    unfolding flip_flip_sample by simp
  ultimately show ?thesis by blast
qed

end
